theory Spec2Isabelle
  imports
    Main
    "HOL-Library.Multiset"
    "HOL-Library.Char_ord"
    "HOL-Library.List_Lexorder"
    "HOL-Library.Product_Lexorder"
begin

section \<open>Project Explorer: the projects grid\<close>

text \<open>
  A shallow embedding of the component \<^verbatim>\<open>ProjectsGrid\<close> and of the API client
  \<^verbatim>\<open>projectsApi\<close>. A JavaScript string is a \<^typ>\<open>string\<close>: a list of code units,
  compared unit by unit as \<^verbatim>\<open><\<close> and the default \<^verbatim>\<open>Array.prototype.sort\<close> do
  (the order of \<^typ>\<open>char list\<close> is the lexicographic one over the code of a
  character). Strings are taken to be well formed, so that the platform's encoding
  of a query string and its decoding are inverse to each other.
\<close>

subsection \<open>Values and operators of the language\<close>

text \<open>\<^verbatim>\<open>x || d\<close> on a value that is a string or \<^verbatim>\<open>null\<close>/\<^verbatim>\<open>undefined\<close>: the
  missing value and the empty string are both falsy.\<close>

fun or_default :: "string option \<Rightarrow> string \<Rightarrow> string" where
  "or_default None d = d"
| "or_default (Some s) d = (if s \<noteq> [] then s else d)"

text \<open>A \<^verbatim>\<open>Set\<close> of strings keeps its members in insertion order: a list without
  duplicates. \<^verbatim>\<open>new Set(iterable)\<close> adds the elements one after the other.\<close>

definition set_has :: "string list \<Rightarrow> string \<Rightarrow> bool" where
  "set_has s x = (x \<in> set s)"

definition set_add :: "string list \<Rightarrow> string \<Rightarrow> string list" where
  "set_add s x = (if x \<in> set s then s else s @ [x])"

definition new_Set :: "string list \<Rightarrow> string list" where
  "new_Set xs = fold (\<lambda>x s. set_add s x) xs []"

text \<open>\<^verbatim>\<open>Array.prototype.sort(compareFn)\<close>. The language fixes the result for a
  consistent comparison function: the stable sort. It leaves the order to the engine
  otherwise. The model is the stable insertion sort, which is the sort of the language
  for the consistent comparison functions and one of the orders that an engine may
  give for the others. A negative or zero result of \<open>cmp x y\<close> keeps \<open>x\<close> in front of
  \<open>y\<close>.\<close>

fun insert_by :: "('a \<Rightarrow> 'a \<Rightarrow> int) \<Rightarrow> 'a \<Rightarrow> 'a list \<Rightarrow> 'a list" where
  "insert_by cmp x [] = [x]"
| "insert_by cmp x (y # ys) =
     (if cmp x y \<le> 0 then x # y # ys else y # insert_by cmp x ys)"

definition array_sort :: "('a \<Rightarrow> 'a \<Rightarrow> int) \<Rightarrow> 'a list \<Rightarrow> 'a list" where
  "array_sort cmp xs = foldr (insert_by cmp) xs []"

text \<open>The comparison of \<^verbatim>\<open>sort()\<close> without an argument, on strings.\<close>

definition default_compare :: "string \<Rightarrow> string \<Rightarrow> int" where
  "default_compare a b = (if a < b then - 1 else if b < a then 1 else 0)"

text \<open>\<^verbatim>\<open>str.split(sep)\<close> for a separator of one code unit, and
  \<^verbatim>\<open>arr.join(sep)\<close>.\<close>

fun split_on :: "char \<Rightarrow> string \<Rightarrow> string list" where
  "split_on sep [] = [[]]"
| "split_on sep (c # cs) =
     (if c = sep then [] # split_on sep cs
      else (case split_on sep cs of
              [] \<Rightarrow> [[c]]
            | w # ws \<Rightarrow> (c # w) # ws))"

fun join :: "string \<Rightarrow> string list \<Rightarrow> string" where
  "join sep [] = []"
| "join sep [x] = x"
| "join sep (x # y # ys) = x @ sep @ join sep (y # ys)"

subsection \<open>The data model (\<^verbatim>\<open>types/api\<close>)\<close>

text \<open>The interfaces of the API as records. A field that two interfaces share keeps its
  name in one of them only: the fields \<open>id\<close>, \<open>type\<close>, \<open>created_at\<close> and \<open>updated_at\<close> of a
  job are \<open>job_id\<close>, \<open>job_type\<close>, \<open>job_created_at\<close> and \<open>job_updated_at\<close>, the field
  \<open>map_id\<close> of a request payload is \<open>payload_map_id\<close>, the field \<open>status\<close> of a result is
  \<open>result_status\<close>, and the field \<open>id\<close> of a project is \<open>id_of\<close>. A field that may be
  missing or \<^verbatim>\<open>null\<close> is an option. Identifiers that are numbers are integers.\<close>

record RequestPayload =
  map_type :: string
  project_id :: string
  baseline_project_id :: string
  payload_map_id :: "string option"
  service_period_id :: "string option"

record JobResult =
  bytes :: "int option"
  run_id :: "string option"
  result_status :: "string option"
  triggered :: "bool option"
  results_od :: string
  results_stops :: string
  results_routes :: string

record RidershipJob =
  job_id :: string
  job_type :: string
  status :: string
  user_id :: int
  map_id :: "string option"
  request_payload :: RequestPayload
  result :: JobResult
  job_created_at :: string
  job_updated_at :: string

record UniqueProject =
  id_of :: string
  name :: string
  agency_id :: string
  agency_name :: string
  author_id :: int
  author_name :: string
  created_at :: string
  updated_at :: string

record ExportSnapshot =
  exported_at :: string
  total_jobs :: int
  total_unique_projects :: int
  jobs :: "RidershipJob list"
  unique_projects :: "UniqueProject list"

record ProjectsData =
  projects :: ExportSnapshot
  lastModified :: string
  totalCount :: int
  sourceFile :: string
  fromCache :: bool

subsection \<open>\<^verbatim>\<open>getUniqueMapIds\<close>\<close>

text \<open>The body of the \<^verbatim>\<open>forEach\<close>: a job of a selected project whose map
  identifier is neither \<^verbatim>\<open>null\<close> nor empty adds it to the set.\<close>

definition collect_map_id :: "string list \<Rightarrow> RidershipJob \<Rightarrow> string list \<Rightarrow> string list" where
  "collect_map_id selectedProjects job mapIds =
     (case map_id job of
        None \<Rightarrow> mapIds
      | Some m \<Rightarrow>
          if set_has selectedProjects (project_id (request_payload job)) \<and> m \<noteq> []
          then set_add mapIds m else mapIds)"

definition getUniqueMapIds :: "ProjectsData option \<Rightarrow> string list \<Rightarrow> string list" where
  "getUniqueMapIds data selectedProjects =
     (case data of
        None \<Rightarrow> []
      | Some d \<Rightarrow>
          if selectedProjects = [] then []
          else array_sort default_compare
                 (fold (collect_map_id selectedProjects) (jobs (projects d)) []))"

text \<open>The comparison functions that \<^verbatim>\<open>sort\<close> is specified for, over a set of
  elements.\<close>

definition total_on :: "('a \<Rightarrow> 'a \<Rightarrow> int) \<Rightarrow> 'a set \<Rightarrow> bool" where
  "total_on cmp A = (\<forall>a\<in>A. \<forall>b\<in>A. cmp a b \<le> 0 \<or> cmp b a \<le> 0)"

definition trans_on :: "('a \<Rightarrow> 'a \<Rightarrow> int) \<Rightarrow> 'a set \<Rightarrow> bool" where
  "trans_on cmp A = (\<forall>a\<in>A. \<forall>b\<in>A. \<forall>c\<in>A. cmp a b \<le> 0 \<and> cmp b c \<le> 0 \<longrightarrow> cmp a c \<le> 0)"

text \<open>The map identifiers that the selection asks for.\<close>

definition wanted_map_ids :: "RidershipJob list \<Rightarrow> string list \<Rightarrow> string set" where
  "wanted_map_ids js S =
     {m. \<exists>j\<in>set js. project_id (request_payload j) \<in> set S \<and> map_id j = Some m \<and> m \<noteq> []}"

text \<open>The jobs of the scenario: two jobs of project \<open>p1\<close> on map \<open>m1\<close>, one of
  \<open>p2\<close> on \<open>m2\<close>, one of \<open>p1\<close> without a map.\<close>

definition example_job :: "string \<Rightarrow> string \<Rightarrow> string option \<Rightarrow> RidershipJob" where
  "example_job j p m =
     \<lparr> job_id = j, job_type = ''ridership'', status = ''completed'', user_id = 1, map_id = m,
       request_payload =
         \<lparr> map_type = ''od'', project_id = p, baseline_project_id = p,
           payload_map_id = None, service_period_id = None \<rparr>,
       result =
         \<lparr> bytes = None, run_id = None, result_status = None, triggered = None,
           results_od = [], results_stops = [], results_routes = [] \<rparr>,
       job_created_at = ''2025-01-01T12:00:00Z'', job_updated_at = ''2025-01-01T12:00:00Z'' \<rparr>"

definition example_data :: "RidershipJob list \<Rightarrow> UniqueProject list \<Rightarrow> ProjectsData" where
  "example_data js ps =
     \<lparr> projects =
         \<lparr> exported_at = ''2025-01-01T12:00:00Z'', total_jobs = int (length js),
           total_unique_projects = int (length ps), jobs = js, unique_projects = ps \<rparr>,
       lastModified = ''2025-01-01T12:00:00Z'', totalCount = int (length js),
       sourceFile = ''export.json'', fromCache = False \<rparr>"

definition example_jobs :: "RidershipJob list" where
  "example_jobs =
     [example_job ''j1'' ''p1'' (Some ''m1''), example_job ''j2'' ''p2'' (Some ''m2''),
      example_job ''j3'' ''p1'' (Some ''m1''), example_job ''j4'' ''p1'' None]"

subsection \<open>\<^verbatim>\<open>sortedProjects\<close>\<close>

text \<open>The values that the comparison function of the sort meets: strings, numbers with
  \<^verbatim>\<open>NaN\<close> apart, \<^verbatim>\<open>undefined\<close>, and the members that every object inherits from
  \<^verbatim>\<open>Object.prototype\<close>, each the same object for every project.\<close>

datatype jsval = JString string | JNumber int | JNaN | JUndefined | JInherited string

definition object_prototype_keys :: "string list" where
  "object_prototype_keys =
     [''constructor'', ''__defineGetter__'', ''__defineSetter__'', ''hasOwnProperty'',
      ''__lookupGetter__'', ''__lookupSetter__'', ''isPrototypeOf'',
      ''propertyIsEnumerable'', ''toString'', ''valueOf'', ''__proto__'',
      ''toLocaleString'']"

text \<open>\<^verbatim>\<open>a[k]\<close> on a project of the snapshot, for any string \<open>k\<close>.\<close>

definition project_prop :: "UniqueProject \<Rightarrow> string \<Rightarrow> jsval" where
  "project_prop a k =
     (if k = ''id'' then JString (id_of a)
      else if k = ''name'' then JString (name a)
      else if k = ''agency_id'' then JString (agency_id a)
      else if k = ''agency_name'' then JString (agency_name a)
      else if k = ''author_id'' then JNumber (author_id a)
      else if k = ''author_name'' then JString (author_name a)
      else if k = ''created_at'' then JString (created_at a)
      else if k = ''updated_at'' then JString (updated_at a)
      else if k \<in> set object_prototype_keys then JInherited k
      else JUndefined)"

text \<open>\<^verbatim>\<open>new Date(s).getTime()\<close>: the milliseconds since the epoch, or \<^verbatim>\<open>NaN\<close> for a
  string that is no date. The parser of dates belongs to the platform and is a
  parameter, \<open>None\<close> for a string that it rejects.\<close>

definition getTime :: "(string \<Rightarrow> int option) \<Rightarrow> string \<Rightarrow> jsval" where
  "getTime parse s = (case parse s of None \<Rightarrow> JNaN | Some t \<Rightarrow> JNumber t)"

text \<open>\<^verbatim>\<open>===\<close> and \<^verbatim>\<open><\<close>. \<^verbatim>\<open>NaN\<close> equals nothing, and nothing is less than
  \<^verbatim>\<open>NaN\<close> or \<^verbatim>\<open>undefined\<close>, nor are they less than anything. The two values of one
  comparison are read from the same property of two projects, so a string never meets
  a number and an inherited member meets itself only: the last equation of
  \<open>js_lt\<close> is not reached for those pairs.\<close>

fun strict_eq :: "jsval \<Rightarrow> jsval \<Rightarrow> bool" where
  "strict_eq (JString x) (JString y) = (x = y)"
| "strict_eq (JNumber x) (JNumber y) = (x = y)"
| "strict_eq JUndefined JUndefined = True"
| "strict_eq (JInherited k) (JInherited l) = (k = l)"
| "strict_eq _ _ = False"

fun js_lt :: "jsval \<Rightarrow> jsval \<Rightarrow> bool" where
  "js_lt (JString x) (JString y) = (x < y)"
| "js_lt (JNumber x) (JNumber y) = (x < y)"
| "js_lt _ _ = False"

text \<open>The \<^verbatim>\<open>switch\<close> on the sort field.\<close>

definition sort_value :: "(string \<Rightarrow> int option) \<Rightarrow> string \<Rightarrow> UniqueProject \<Rightarrow> jsval" where
  "sort_value parse sortBy a =
     (if sortBy = ''created_at'' then getTime parse (created_at a)
      else if sortBy = ''updated_at'' then getTime parse (updated_at a)
      else if sortBy = ''author'' then JString (author_name a)
      else if sortBy = ''agency'' then JString (agency_name a)
      else project_prop a sortBy)"

definition compareFn ::
  "(string \<Rightarrow> int option) \<Rightarrow> string \<Rightarrow> string \<Rightarrow> UniqueProject \<Rightarrow> UniqueProject \<Rightarrow> int" where
  "compareFn parse sortBy sortDirection a b =
     (let aValue = sort_value parse sortBy a;
          bValue = sort_value parse sortBy b
      in if strict_eq aValue bValue then 0
         else
           let comparison =
                 (if js_lt aValue bValue then - 1
                  else if js_lt bValue aValue then 1 else 0)
           in if sortDirection = ''desc'' then comparison * (- 1) else comparison)"

definition sortedProjects ::
  "(string \<Rightarrow> int option) \<Rightarrow> ProjectsData option \<Rightarrow> string \<Rightarrow> string \<Rightarrow> UniqueProject list" where
  "sortedProjects parse data sortBy sortDirection =
     (case data of
        None \<Rightarrow> []
      | Some d \<Rightarrow> array_sort (compareFn parse sortBy sortDirection) (unique_projects (projects d)))"

text \<open>The sort fields of \<^verbatim>\<open>SortByType\<close>, the names of the properties of a project,
  and lists of projects whose time stamp of the sort field the platform can read.\<close>

definition sort_fields :: "string list" where
  "sort_fields = [''name'', ''agency'', ''author'', ''created_at'', ''updated_at'']"

definition project_keys :: "string list" where
  "project_keys =
     [''id'', ''name'', ''agency_id'', ''agency_name'', ''author_id'', ''author_name'',
      ''created_at'', ''updated_at'']"


text \<open>Projects and a parser of dates for the examples.\<close>

definition example_project :: "string \<Rightarrow> string \<Rightarrow> string \<Rightarrow> string \<Rightarrow> string \<Rightarrow> UniqueProject" where
  "example_project i n ag au upd =
     \<lparr> id_of = i, name = n, agency_id = ag, agency_name = ag, author_id = 7,
       author_name = au, created_at = ''2025-01-01'', updated_at = upd \<rparr>"

definition example_parse :: "string \<Rightarrow> int option" where
  "example_parse s =
     (if s = ''2025-01-01'' then Some 1735689600000
      else if s = ''2025-01-02'' then Some 1735776000000
      else None)"

definition example_projects :: "UniqueProject list" where
  "example_projects =
     [example_project ''p1'' ''B'' ''Zeta'' ''ann'' ''2025-01-02'',
      example_project ''p2'' ''A'' ''alpha'' ''bob'' ''2025-01-01'',
      example_project ''p3'' ''C'' ''alpha'' ''ann'' ''2025-01-01'']"






subsection \<open>\<^verbatim>\<open>groupedProjects\<close>\<close>

record ProjectGroup =
  group_key :: string
  group_title :: string
  group_projects :: "UniqueProject list"

datatype js_error = TypeError | SecurityError

text \<open>The object \<^verbatim>\<open>groups\<close>: its own properties in the order of their creation. It is
  created by \<^verbatim>\<open>{}\<close> and so inherits the members of \<^verbatim>\<open>Object.prototype\<close>.

  The body of the \<^verbatim>\<open>forEach\<close>. For a key that is an own property the project is
  pushed on its array. For a key that \<^verbatim>\<open>groups\<close> inherits, \<^verbatim>\<open>groups[groupKey]\<close> is a
  function or an object, which is truthy and has no \<^verbatim>\<open>push\<close>: the call throws a
  \<^verbatim>\<open>TypeError\<close>. For any other key an array is created first.\<close>

definition group_step ::
  "string \<Rightarrow> (string \<times> UniqueProject list) list \<Rightarrow> UniqueProject \<Rightarrow>
   js_error + (string \<times> UniqueProject list) list" where
  "group_step groupBy groups project =
     (let groupKey = (if groupBy = ''author'' then author_name project else agency_name project)
      in case map_of groups groupKey of
           Some members \<Rightarrow>
             Inr (map (\<lambda>(k, v). if k = groupKey then (k, v @ [project]) else (k, v)) groups)
         | None \<Rightarrow>
             if groupKey \<in> set object_prototype_keys then Inl TypeError
             else Inr (groups @ [(groupKey, [project])]))"

fun group_all ::
  "string \<Rightarrow> (string \<times> UniqueProject list) list \<Rightarrow> UniqueProject list \<Rightarrow>
   js_error + (string \<times> UniqueProject list) list" where
  "group_all groupBy groups [] = Inr groups"
| "group_all groupBy groups (p # ps) =
     (case group_step groupBy groups p of
        Inl e \<Rightarrow> Inl e
      | Inr groups' \<Rightarrow> group_all groupBy groups' ps)"

text \<open>\<^verbatim>\<open>Object.entries\<close>: the own properties whose key is an array index (the decimal
  numeral of a number below \<open>2\<^sup>3\<^sup>2 - 1\<close>) come first, in the order of the numbers, and
  the others follow in the order of their creation.\<close>

definition is_digit :: "char \<Rightarrow> bool" where
  "is_digit c = (c \<in> set ''0123456789'')"

definition index_value :: "string \<Rightarrow> nat" where
  "index_value s = fold (\<lambda>c n. 10 * n + (of_char c - 48)) s 0"

definition is_array_index :: "string \<Rightarrow> bool" where
  "is_array_index s =
     (s \<noteq> [] \<and> list_all is_digit s \<and> (s = ''0'' \<or> hd s \<noteq> CHR ''0'') \<and>
      length s \<le> 10 \<and> index_value s < 4294967295)"

definition object_entries :: "(string \<times> 'v) list \<Rightarrow> (string \<times> 'v) list" where
  "object_entries obj =
     sort_key (\<lambda>(k, v). index_value k) (filter (\<lambda>(k, v). is_array_index k) obj) @
     filter (\<lambda>(k, v). \<not> is_array_index k) obj"

text \<open>\<^verbatim>\<open>String.prototype.localeCompare\<close> is the collation of the platform's locale, a
  parameter of the model.\<close>

definition groupedProjects ::
  "(string \<Rightarrow> string \<Rightarrow> int) \<Rightarrow> string \<Rightarrow> UniqueProject list \<Rightarrow> js_error + ProjectGroup list" where
  "groupedProjects localeCompare groupBy sorted_projects =
     (if groupBy = ''none''
      then Inr [\<lparr> group_key = ''all'', group_title = [], group_projects = sorted_projects \<rparr>]
      else
        case group_all groupBy [] sorted_projects of
          Inl e \<Rightarrow> Inl e
        | Inr groups \<Rightarrow>
            Inr (map (\<lambda>(k, ps). \<lparr> group_key = k, group_title = k, group_projects = ps \<rparr>)
                   (array_sort (\<lambda>(a, x) (b, y). localeCompare a b) (object_entries groups))))"

text \<open>The key that a project is grouped by, and the comparison functions that the
  language allows \<^verbatim>\<open>localeCompare\<close> to be: consistent ones.\<close>

definition group_key_of :: "string \<Rightarrow> UniqueProject \<Rightarrow> string" where
  "group_key_of groupBy p = (if groupBy = ''author'' then author_name p else agency_name p)"

definition consistent :: "('a \<Rightarrow> 'a \<Rightarrow> int) \<Rightarrow> bool" where
  "consistent cmp = (total_on cmp UNIV \<and> trans_on cmp UNIV)"

text \<open>A collation for the examples, which orders the letters of ASCII as the root
  collation of Unicode does: first without regard to case, then the lower case before
  the upper case.\<close>

definition lower_ascii :: "char \<Rightarrow> char" where
  "lower_ascii c =
     (case map_of (zip ''ABCDEFGHIJKLMNOPQRSTUVWXYZ'' ''abcdefghijklmnopqrstuvwxyz'') c of
        None \<Rightarrow> c
      | Some l \<Rightarrow> l)"

definition is_upper_ascii :: "char \<Rightarrow> bool" where
  "is_upper_ascii c = (c \<in> set ''ABCDEFGHIJKLMNOPQRSTUVWXYZ'')"

definition collation_key :: "string \<Rightarrow> string \<times> bool list" where
  "collation_key s = (map lower_ascii s, map is_upper_ascii s)"

definition ascii_collation :: "string \<Rightarrow> string \<Rightarrow> int" where
  "ascii_collation a b =
     (if collation_key a < collation_key b then - 1
      else if collation_key b < collation_key a then 1 else 0)"

text \<open>The array that \<^verbatim>\<open>groups\<close> holds under a key, empty when it holds none.\<close>

definition members_of :: "(string \<times> UniqueProject list) list \<Rightarrow> string \<Rightarrow> UniqueProject list" where
  "members_of groups k = (case map_of groups k of None \<Rightarrow> [] | Some v \<Rightarrow> v)"

subsection \<open>\<^verbatim>\<open>projectsApi.getProjects\<close> and \<^verbatim>\<open>fetchProjects\<close>\<close>

text \<open>A thrown value is an \<^verbatim>\<open>Error\<close> with its message, \<^verbatim>\<open>null\<close>, \<^verbatim>\<open>undefined\<close>, or
  something else. A promise settles: it is resolved with a value or rejected with a
  thrown value.\<close>

datatype thrown = ErrorObject string | NullValue | UndefinedValue | OtherValue

datatype 'a settled = Resolved 'a | Rejected thrown

record ProjectsResponse =
  success :: bool
  response_data :: "ProjectsData option"
  response_error :: "string option"

text \<open>The transport behind \<^verbatim>\<open>apiClient\<close>: what the \<open>n\<close>-th request of the session
  settles to, for the environment it asks for, before the interceptors, and the number
  of requests made so far.\<close>

record Network =
  replies :: "nat \<Rightarrow> string \<Rightarrow> ProjectsResponse settled"
  requests :: nat

text \<open>The response interceptor. It passes a response on. On a rejection it logs
  \<^verbatim>\<open>error.response?.data || error.message\<close> and rejects with the same value; reading
  \<^verbatim>\<open>error.response\<close> of \<^verbatim>\<open>null\<close> or \<^verbatim>\<open>undefined\<close> throws a \<^verbatim>\<open>TypeError\<close>, which
  the request is then rejected with. The message of that error is worded by the
  engine, here as V8 words it. The request interceptor logs and changes nothing.\<close>

definition type_error_message :: "string \<Rightarrow> string" where
  "type_error_message what =
     ''Cannot read properties of '' @ what @ '' (reading '' @ [CHR 0x27] @ ''response'' @
     [CHR 0x27] @ '')''"

definition response_interceptor :: "'a settled \<Rightarrow> 'a settled" where
  "response_interceptor outcome =
     (case outcome of
        Resolved response \<Rightarrow> Resolved response
      | Rejected error \<Rightarrow>
          (case error of
             NullValue \<Rightarrow> Rejected (ErrorObject (type_error_message ''null''))
           | UndefinedValue \<Rightarrow> Rejected (ErrorObject (type_error_message ''undefined''))
           | _ \<Rightarrow> Rejected error))"

definition api_get :: "string \<Rightarrow> Network \<Rightarrow> ProjectsResponse settled \<times> Network" where
  "api_get environment net =
     (response_interceptor (replies net (requests net) environment),
      net\<lparr>requests := Suc (requests net)\<rparr>)"

definition getProjects :: "string \<Rightarrow> Network \<Rightarrow> ProjectsResponse settled \<times> Network" where
  "getProjects environment net =
     (case api_get environment net of
        (Resolved response, net') \<Rightarrow> (Resolved response, net')
      | (Rejected error, net') \<Rightarrow>
          (Resolved
             \<lparr> success = False, response_data = None,
               response_error =
                 Some (case error of
                         ErrorObject message \<Rightarrow> message
                       | _ \<Rightarrow> ''Unknown error occurred'') \<rparr>,
           net'))"

record GridState =
  data :: "ProjectsData option"
  loading :: bool
  error :: "string option"

definition fetchProjects :: "string \<Rightarrow> GridState \<Rightarrow> Network \<Rightarrow> GridState \<times> Network" where
  "fetchProjects environment st net =
     (let st = st\<lparr>loading := True\<rparr>;
          st = st\<lparr>error := None\<rparr>;
          (outcome, net) = getProjects environment net;
          st = (case outcome of
                  Resolved response \<Rightarrow>
                    if success response \<and> response_data response \<noteq> None
                    then st\<lparr>data := response_data response\<rparr>
                    else st\<lparr>error :=
                           Some (or_default (response_error response) ''Failed to fetch projects'')\<rparr>
                | Rejected err \<Rightarrow>
                    st\<lparr>error :=
                         Some (case err of
                                 ErrorObject message \<Rightarrow> message
                               | _ \<Rightarrow> ''An error occurred'')\<rparr>)
      in (st\<lparr>loading := False\<rparr>, net))"

text \<open>What the component renders: the spinner, the error panel with its message and the
  button \<^verbatim>\<open>Try Again\<close> that calls \<^verbatim>\<open>fetchProjects\<close>, the empty notice, or the grid.\<close>

datatype View = Spinner | ErrorPanel string | NoProjects | Grid

definition render :: "GridState \<Rightarrow> View" where
  "render st =
     (if loading st then Spinner
      else case error st of
             Some message \<Rightarrow>
               if message \<noteq> [] then ErrorPanel message
               else (case data st of
                       None \<Rightarrow> NoProjects
                     | Some d \<Rightarrow> if unique_projects (projects d) = [] then NoProjects else Grid)
           | None \<Rightarrow>
               (case data st of
                  None \<Rightarrow> NoProjects
                | Some d \<Rightarrow> if unique_projects (projects d) = [] then NoProjects else Grid))"

text \<open>A backend whose first request fails and whose later requests succeed.\<close>

definition failing_network :: Network where
  "failing_network =
     \<lparr> replies =
         (\<lambda>n env. if n = 0 then Rejected (ErrorObject ''Network Error'')
                  else Resolved \<lparr> success = True,
                         response_data = Some (example_data example_jobs example_projects),
                         response_error = None \<rparr>),
       requests = 0 \<rparr>"

definition initial_state :: GridState where
  "initial_state = \<lparr> data = None, loading = True, error = None \<rparr>"

text \<open>A transport that rejects with an \<^verbatim>\<open>Error\<close> whose message is empty.\<close>

definition silent_network :: Network where
  "silent_network = \<lparr> replies = (\<lambda>n env. Rejected (ErrorObject [])), requests = 0 \<rparr>"

text \<open>The error text of the response for a rejection of the transport: the message of the
  \<^verbatim>\<open>Error\<close> that reaches the \<^verbatim>\<open>catch\<close>, or the fixed text for a value that is no
  \<^verbatim>\<open>Error\<close>.\<close>

definition response_message :: "thrown \<Rightarrow> string" where
  "response_message e =
     (case e of
        ErrorObject m \<Rightarrow> m
      | NullValue \<Rightarrow> type_error_message ''null''
      | UndefinedValue \<Rightarrow> type_error_message ''undefined''
      | OtherValue \<Rightarrow> ''Unknown error occurred'')"

subsection \<open>The query string (\<^verbatim>\<open>URLSearchParams\<close>)\<close>

text \<open>The query of the location in its parsed form: the list of name and value pairs,
  in order, names possibly repeated. \<^verbatim>\<open>get\<close> returns the first value of a name,
  \<^verbatim>\<open>set\<close> overwrites the first pair of the name and removes its other pairs, or
  appends a pair, and \<^verbatim>\<open>delete\<close> removes every pair of the name.\<close>

type_synonym URLSearchParams = "(string \<times> string) list"

fun usp_get :: "URLSearchParams \<Rightarrow> string \<Rightarrow> string option" where
  "usp_get [] n = None"
| "usp_get ((k, v) # ps) n = (if k = n then Some v else usp_get ps n)"

definition usp_delete :: "URLSearchParams \<Rightarrow> string \<Rightarrow> URLSearchParams" where
  "usp_delete ps n = filter (\<lambda>(k, v). k \<noteq> n) ps"

fun usp_set :: "URLSearchParams \<Rightarrow> string \<Rightarrow> string \<Rightarrow> URLSearchParams" where
  "usp_set [] n v = [(n, v)]"
| "usp_set ((k, w) # ps) n v =
     (if k = n then (n, v) # usp_delete ps n else (k, w) # usp_set ps n v)"

record Location =
  pathname :: string
  search :: URLSearchParams

record ViewState =
  environment :: string
  groupBy :: string
  sortBy :: string
  sortDirection :: string
  selectedProjects :: "string list"

text \<open>The argument of \<^verbatim>\<open>updateUrlParams\<close>, a \<^verbatim>\<open>Partial\<close>: a field that is not
  given is \<^verbatim>\<open>undefined\<close>.\<close>

record ViewStateUpdate =
  upd_environment :: "string option"
  upd_groupBy :: "string option"
  upd_sortBy :: "string option"
  upd_sortDirection :: "string option"
  upd_selectedProjects :: "string list option"

text \<open>The casts \<^verbatim>\<open>as Environment\<close>, \<^verbatim>\<open>as GroupByType\<close>, ... check nothing when
  the program runs: a field is the string of the query.\<close>

definition getUrlParams :: "Location \<Rightarrow> ViewState" where
  "getUrlParams loc =
     (let params = search loc in
      \<lparr> environment = or_default (usp_get params ''env'') ''local'',
        groupBy = or_default (usp_get params ''groupBy'') ''none'',
        sortBy = or_default (usp_get params ''sortBy'') ''updated_at'',
        sortDirection = or_default (usp_get params ''sortDir'') ''desc'',
        selectedProjects =
          (case usp_get params ''selected'' of
             None \<Rightarrow> []
           | Some s \<Rightarrow> if s \<noteq> [] then new_Set (split_on CHR '','' s) else []) \<rparr>)"

text \<open>The body of \<^verbatim>\<open>updateUrlParams\<close> up to the new URL: the parameters of the
  location after the \<^verbatim>\<open>set\<close> of each field that the update gives and the
  \<^verbatim>\<open>delete\<close> of an empty selection. Their \<^verbatim>\<open>toString\<close> is the query of the new
  URL.\<close>

definition updated_params :: "ViewStateUpdate \<Rightarrow> URLSearchParams \<Rightarrow> URLSearchParams" where
  "updated_params updates params0 =
     (let params = params0;
          params = (case upd_environment updates of
                      None \<Rightarrow> params | Some v \<Rightarrow> usp_set params ''env'' v);
          params = (case upd_groupBy updates of
                      None \<Rightarrow> params | Some v \<Rightarrow> usp_set params ''groupBy'' v);
          params = (case upd_sortBy updates of
                      None \<Rightarrow> params | Some v \<Rightarrow> usp_set params ''sortBy'' v);
          params = (case upd_sortDirection updates of
                      None \<Rightarrow> params | Some v \<Rightarrow> usp_set params ''sortDir'' v);
          params = (case upd_selectedProjects updates of
                      None \<Rightarrow> params
                    | Some s \<Rightarrow>
                        if s \<noteq> [] then usp_set params ''selected'' (join '','' s)
                        else usp_delete params ''selected'')
      in params)"

text \<open>\<^verbatim>\<open>window.history.replaceState({}, '', newUrl)\<close> with the new URL
  \<^verbatim>\<open>pathname?params\<close>, which the browser resolves against the page. A path that
  begins with \<^verbatim>\<open>//\<close> makes it a scheme-relative URL: its first segment is read as a
  host, taken here to be another host than the page's, and \<^verbatim>\<open>replaceState\<close> throws
  a \<^verbatim>\<open>SecurityError\<close> and leaves the location as it is. Any other path is the
  path of the page, and the location takes the new query. The result is the error
  thrown, if any, and the location after the call.\<close>

definition scheme_relative :: "string \<Rightarrow> bool" where
  "scheme_relative path = (take 2 path = ''//'')"

definition replaceState :: "string \<Rightarrow> URLSearchParams \<Rightarrow> Location \<Rightarrow> js_error option \<times> Location" where
  "replaceState path params loc =
     (if scheme_relative path then (Some SecurityError, loc)
      else (None, \<lparr> pathname = path, search = params \<rparr>))"

definition updateUrlParams :: "ViewStateUpdate \<Rightarrow> Location \<Rightarrow> js_error option \<times> Location" where
  "updateUrlParams updates loc =
     replaceState (pathname loc) (updated_params updates (search loc)) loc"

definition no_update :: ViewStateUpdate where
  "no_update =
     \<lparr> upd_environment = None, upd_groupBy = None, upd_sortBy = None,
       upd_sortDirection = None, upd_selectedProjects = None \<rparr>"

text \<open>The five effects that write the state into the location, one field each, in the
  order of the source. An effect that throws leaves the location as it is, and the
  sequence ends with its error.\<close>

definition run_effect ::
  "(Location \<Rightarrow> js_error option \<times> Location) \<Rightarrow> js_error option \<times> Location \<Rightarrow>
   js_error option \<times> Location" where
  "run_effect effect r =
     (case r of
        (None, loc) \<Rightarrow> effect loc
      | (Some e, loc) \<Rightarrow> (Some e, loc))"

definition synchronize :: "ViewState \<Rightarrow> Location \<Rightarrow> js_error option \<times> Location" where
  "synchronize st loc =
     (let r = updateUrlParams (no_update\<lparr>upd_environment := Some (environment st)\<rparr>) loc;
          r = run_effect (updateUrlParams (no_update\<lparr>upd_groupBy := Some (groupBy st)\<rparr>)) r;
          r = run_effect (updateUrlParams (no_update\<lparr>upd_sortBy := Some (sortBy st)\<rparr>)) r;
          r = run_effect
                (updateUrlParams (no_update\<lparr>upd_sortDirection := Some (sortDirection st)\<rparr>)) r
      in run_effect
           (updateUrlParams (no_update\<lparr>upd_selectedProjects := Some (selectedProjects st)\<rparr>)) r)"

definition absent_or_empty :: "URLSearchParams \<Rightarrow> string \<Rightarrow> bool" where
  "absent_or_empty q n = (usp_get q n = None \<or> usp_get q n = Some [])"

definition updated_names :: "ViewStateUpdate \<Rightarrow> string set" where
  "updated_names u =
     (if upd_environment u = None then {} else {''env''}) \<union>
     (if upd_groupBy u = None then {} else {''groupBy''}) \<union>
     (if upd_sortBy u = None then {} else {''sortBy''}) \<union>
     (if upd_sortDirection u = None then {} else {''sortDir''}) \<union>
     (if upd_selectedProjects u = None then {} else {''selected''})"

definition example_location :: Location where
  "example_location =
     \<lparr> pathname = ''/'',
       search = [(''env'', ''production''), (''selected'', ''p1,p2,p1''), (''tab'', ''x'')] \<rparr>"

definition example_state :: ViewState where
  "example_state =
     \<lparr> environment = ''production'', groupBy = ''agency'', sortBy = ''name'',
       sortDirection = ''asc'', selectedProjects = [''p2'', ''p1''] \<rparr>"

definition comma_state :: ViewState where
  "comma_state =
     \<lparr> environment = ''local'', groupBy = ''none'', sortBy = ''updated_at'',
       sortDirection = ''desc'', selectedProjects = [''a,b''] \<rparr>"

section \<open>Properties\<close>

subsection \<open>The sort\<close>

lemma mset_insert_by: "mset (insert_by cmp x ys) = add_mset x (mset ys)"
  by (induction ys) simp_all

lemma set_insert_by: "set (insert_by cmp x ys) = insert x (set ys)"
  by (induction ys) auto

lemma mset_array_sort: "mset (array_sort cmp xs) = mset xs"
  by (induction xs) (simp_all add: array_sort_def mset_insert_by)

lemma set_array_sort: "set (array_sort cmp xs) = set xs"
  using mset_array_sort [of cmp xs] by (metis set_mset_mset)

lemma length_array_sort: "length (array_sort cmp xs) = length xs"
  using mset_array_sort [of cmp xs] by (metis size_mset)

lemma distinct_array_sort: "distinct (array_sort cmp xs) = distinct xs"
  by (rule mset_eq_imp_distinct_iff) (rule mset_array_sort)

lemma array_sort_Cons: "array_sort cmp (x # xs) = insert_by cmp x (array_sort cmp xs)"
  by (simp add: array_sort_def)

text \<open>Over elements that the comparison orders totally and transitively, the result is
  sorted.\<close>

lemma sorted_insert_by:
  assumes "sorted_wrt (\<lambda>a b. cmp a b \<le> 0) ys"
    and "\<And>y. y \<in> set ys \<Longrightarrow> cmp x y \<le> 0 \<or> cmp y x \<le> 0"
    and "\<And>a b. a \<in> set ys \<Longrightarrow> b \<in> set ys \<Longrightarrow> cmp x a \<le> 0 \<Longrightarrow> cmp a b \<le> 0 \<Longrightarrow> cmp x b \<le> 0"
  shows "sorted_wrt (\<lambda>a b. cmp a b \<le> 0) (insert_by cmp x ys)"
  using assms
proof (induction ys)
  case Nil
  show ?case by simp
next
  case (Cons y ys)
  have s: "sorted_wrt (\<lambda>a b. cmp a b \<le> 0) ys"
    and yz: "\<And>z. z \<in> set ys \<Longrightarrow> cmp y z \<le> 0"
    using Cons.prems(1) by simp_all
  show ?case
  proof (cases "cmp x y \<le> 0")
    case True
    have "cmp x z \<le> 0" if "z \<in> set ys" for z
      using Cons.prems(3) [of y z] that True yz [OF that] by simp
    then show ?thesis
      using True Cons.prems(1) by simp
  next
    case False
    have yx: "cmp y x \<le> 0"
      using Cons.prems(2) [of y] False by simp
    have "sorted_wrt (\<lambda>a b. cmp a b \<le> 0) (insert_by cmp x ys)"
    proof (rule Cons.IH [OF s])
      show "cmp x z \<le> 0 \<or> cmp z x \<le> 0" if "z \<in> set ys" for z
        using Cons.prems(2) [of z] that by simp
      show "cmp x b \<le> 0"
        if "a \<in> set ys" "b \<in> set ys" "cmp x a \<le> 0" "cmp a b \<le> 0" for a b
        using Cons.prems(3) [of a b] that by simp
    qed
    moreover have "cmp y z \<le> 0" if "z \<in> set (insert_by cmp x ys)" for z
      using that yx yz by (auto simp: set_insert_by)
    ultimately show ?thesis
      using False by simp
  qed
qed

lemma total_onD: "total_on cmp A \<Longrightarrow> a \<in> A \<Longrightarrow> b \<in> A \<Longrightarrow> cmp a b \<le> 0 \<or> cmp b a \<le> 0"
  unfolding total_on_def by blast

lemma trans_onD:
  "trans_on cmp A \<Longrightarrow> a \<in> A \<Longrightarrow> b \<in> A \<Longrightarrow> c \<in> A \<Longrightarrow> cmp a b \<le> 0 \<Longrightarrow> cmp b c \<le> 0 \<Longrightarrow> cmp a c \<le> 0"
  unfolding trans_on_def by blast

lemma total_on_subset: "total_on cmp A \<Longrightarrow> B \<subseteq> A \<Longrightarrow> total_on cmp B"
  unfolding total_on_def by blast

lemma trans_on_subset: "trans_on cmp A \<Longrightarrow> B \<subseteq> A \<Longrightarrow> trans_on cmp B"
  unfolding trans_on_def by blast

lemma sorted_array_sort:
  assumes "total_on cmp (set xs)" and "trans_on cmp (set xs)"
  shows "sorted_wrt (\<lambda>a b. cmp a b \<le> 0) (array_sort cmp xs)"
  using assms
proof (induction xs)
  case Nil
  show ?case by (simp add: array_sort_def)
next
  case (Cons x xs)
  have s: "sorted_wrt (\<lambda>a b. cmp a b \<le> 0) (array_sort cmp xs)"
    by (rule Cons.IH)
       (rule total_on_subset [OF Cons.prems(1)] trans_on_subset [OF Cons.prems(2)], auto)+
  have "sorted_wrt (\<lambda>a b. cmp a b \<le> 0) (insert_by cmp x (array_sort cmp xs))"
  proof (rule sorted_insert_by [OF s])
    show "cmp x y \<le> 0 \<or> cmp y x \<le> 0" if "y \<in> set (array_sort cmp xs)" for y
      using total_onD [OF Cons.prems(1), of x y] that by (simp add: set_array_sort)
    show "cmp x b \<le> 0"
      if "a \<in> set (array_sort cmp xs)" "b \<in> set (array_sort cmp xs)"
        "cmp x a \<le> 0" "cmp a b \<le> 0" for a b
      using trans_onD [OF Cons.prems(2), of x a b] that by (simp add: set_array_sort)
  qed
  then show ?case by (simp add: array_sort_Cons)
qed

text \<open>Stability: a class of elements that never compare greater than one another keeps
  its order.\<close>

lemma filter_insert_by_in:
  assumes "P x" and "\<forall>y\<in>set ys. P y \<longrightarrow> cmp x y \<le> 0"
  shows "filter P (insert_by cmp x ys) = x # filter P ys"
  using assms by (induction ys) auto

lemma filter_insert_by_out:
  assumes "\<not> P x"
  shows "filter P (insert_by cmp x ys) = filter P ys"
  using assms by (induction ys) auto

lemma filter_array_sort:
  assumes "\<forall>a\<in>set xs. \<forall>b\<in>set xs. P a \<and> P b \<longrightarrow> cmp a b \<le> 0"
  shows "filter P (array_sort cmp xs) = filter P xs"
  using assms
proof (induction xs)
  case Nil
  then show ?case by (simp add: array_sort_def)
next
  case (Cons x xs)
  have IH: "filter P (array_sort cmp xs) = filter P xs"
    using Cons by simp
  show ?case
  proof (cases "P x")
    case True
    have "\<forall>y\<in>set (array_sort cmp xs). P y \<longrightarrow> cmp x y \<le> 0"
      using Cons.prems True by (simp add: set_array_sort)
    then show ?thesis
      using True IH by (simp add: array_sort_Cons filter_insert_by_in)
  next
    case False
    then show ?thesis
      using IH by (simp add: array_sort_Cons filter_insert_by_out)
  qed
qed

subsection \<open>Sets of strings\<close>

lemma set_set_add: "set (set_add s x) = insert x (set s)"
  by (auto simp: set_add_def)

lemma distinct_set_add: "distinct s \<Longrightarrow> distinct (set_add s x)"
  by (simp add: set_add_def)

subsection \<open>Map identifiers of the selected projects\<close>

lemma set_collect_map_id:
  "set (collect_map_id S j acc) = set acc \<union> wanted_map_ids [j] S"
  by (auto simp: collect_map_id_def wanted_map_ids_def set_has_def set_set_add
           split: option.splits)

lemma distinct_collect_map_id: "distinct acc \<Longrightarrow> distinct (collect_map_id S j acc)"
  by (simp add: collect_map_id_def distinct_set_add split: option.splits)

lemma wanted_map_ids_Cons:
  "wanted_map_ids (j # js) S = wanted_map_ids [j] S \<union> wanted_map_ids js S"
  by (auto simp: wanted_map_ids_def)

lemma set_fold_collect:
  "set (fold (collect_map_id S) js acc) = set acc \<union> wanted_map_ids js S"
proof (induction js arbitrary: acc)
  case Nil
  then show ?case by (simp add: wanted_map_ids_def)
next
  case (Cons j js)
  show ?case
    using Cons.IH [of "collect_map_id S j acc"] wanted_map_ids_Cons [of j js S]
    by (auto simp: set_collect_map_id)
qed

lemma distinct_fold_collect:
  "distinct acc \<Longrightarrow> distinct (fold (collect_map_id S) js acc)"
  by (induction js arbitrary: acc) (simp_all add: distinct_collect_map_id)

lemma default_compare_le: "default_compare a b \<le> 0 \<longleftrightarrow> a \<le> b"
  by (auto simp: default_compare_def)

lemma sorted_default_sort: "sorted (array_sort default_compare xs)"
proof -
  have "sorted_wrt (\<lambda>a b. default_compare a b \<le> 0) (array_sort default_compare xs)"
    by (rule sorted_array_sort) (auto simp: total_on_def trans_on_def default_compare_le)
  then show ?thesis
    by (simp add: default_compare_le)
qed

text \<open>
  C1. With the snapshot loaded, \<^verbatim>\<open>getUniqueMapIds\<close> returns the empty sequence for
  the empty selection. Otherwise it returns exactly the map identifiers of the jobs
  whose project is selected and whose map identifier is neither null nor empty, each
  once, in strictly ascending order of the strings.
\<close>

theorem getUniqueMapIds_sorted_unique:
  "(S = [] \<longrightarrow> getUniqueMapIds (Some d) S = []) \<and>
   (S \<noteq> [] \<longrightarrow>
      set (getUniqueMapIds (Some d) S) = wanted_map_ids (jobs (projects d)) S \<and>
      distinct (getUniqueMapIds (Some d) S) \<and>
      sorted (getUniqueMapIds (Some d) S) \<and>
      getUniqueMapIds (Some d) S =
        sorted_list_of_set (wanted_map_ids (jobs (projects d)) S))"
proof (cases "S = []")
  case True
  then show ?thesis by (simp add: getUniqueMapIds_def)
next
  case False
  let ?r = "getUniqueMapIds (Some d) S"
  let ?c = "fold (collect_map_id S) (jobs (projects d)) []"
  have r: "?r = array_sort default_compare ?c"
    using False by (simp add: getUniqueMapIds_def)
  have s: "set ?r = wanted_map_ids (jobs (projects d)) S"
    by (simp add: r set_array_sort set_fold_collect)
  have dd: "distinct ?r"
    by (simp add: r distinct_array_sort distinct_fold_collect)
  have so: "sorted ?r"
    by (simp add: r sorted_default_sort)
  have "?r = sorted_list_of_set (wanted_map_ids (jobs (projects d)) S)"
    using sorted_list_of_set.idem_if_sorted_distinct [OF so dd] by (simp only: s)
  with False s dd so show ?thesis by simp
qed

theorem getUniqueMapIds_sorted_unique_witness:
  "[''p1''] \<noteq> [] \<and>
   getUniqueMapIds (Some (example_data example_jobs [])) [''p1''] = [''m1''] \<and>
   wanted_map_ids (jobs (projects (example_data example_jobs []))) [''p1''] = {''m1''} \<and>
   getUniqueMapIds (Some (example_data example_jobs [])) [''p2'', ''p1''] = [''m1'', ''m2''] \<and>
   getUniqueMapIds (Some (example_data example_jobs [])) [] = []"
proof -
  have a: "getUniqueMapIds (Some (example_data example_jobs [])) [''p1''] = [''m1'']"
    by (simp add: getUniqueMapIds_def example_data_def example_jobs_def example_job_def
          collect_map_id_def set_has_def set_add_def array_sort_def)
  have b: "getUniqueMapIds (Some (example_data example_jobs [])) [''p2'', ''p1''] = [''m1'', ''m2'']"
    by (simp add: getUniqueMapIds_def example_data_def example_jobs_def example_job_def
          collect_map_id_def set_has_def set_add_def array_sort_def default_compare_def)
  show ?thesis
    using getUniqueMapIds_sorted_unique [of "[''p1'']" "example_data example_jobs []"]
      getUniqueMapIds_sorted_unique [of "[]" "example_data example_jobs []"] a b
    by simp
qed
subsection \<open>The view state in the location\<close>

lemma usp_get_delete: "usp_get (usp_delete ps n) m = (if m = n then None else usp_get ps m)"
  by (induction ps) (auto simp: usp_delete_def)

lemma usp_get_set: "usp_get (usp_set ps n v) m = (if m = n then Some v else usp_get ps m)"
  by (induction ps) (auto simp: usp_get_delete)

lemma keys_usp_delete: "fst ` set (usp_delete ps n) = fst ` set ps - {n}"
  by (induction ps) (auto simp: usp_delete_def)

lemma filter_key_usp_delete:
  "filter (\<lambda>(k, v). k = n) (usp_delete ps n) = []"
  by (induction ps) (auto simp: usp_delete_def)

lemma filter_key_usp_set:
  "filter (\<lambda>(k, v). k = n) (usp_set ps n v) = [(n, v)]"
  by (induction ps) (auto simp: filter_key_usp_delete)

lemma frame_usp_delete:
  "n \<in> A \<Longrightarrow> filter (\<lambda>(k, v). k \<notin> A) (usp_delete ps n) = filter (\<lambda>(k, v). k \<notin> A) ps"
  by (induction ps) (auto simp: usp_delete_def)

lemma frame_usp_set:
  "n \<in> A \<Longrightarrow> filter (\<lambda>(k, v). k \<notin> A) (usp_set ps n v) = filter (\<lambda>(k, v). k \<notin> A) ps"
proof (induction ps)
  case Nil
  then show ?case by simp
next
  case (Cons p ps)
  obtain k w where p: "p = (k, w)" by (cases p)
  show ?case
  proof (cases "k = n")
    case True
    then show ?thesis
      using Cons.prems p frame_usp_delete [of n A ps] by simp
  next
    case False
    then show ?thesis
      using Cons p by simp
  qed
qed

lemma split_on_not_Nil: "split_on sep s \<noteq> []"
  by (induction s) (auto split: list.splits)

lemma split_on_free: "sep \<notin> set x \<Longrightarrow> split_on sep x = [x]"
  by (induction x) auto

lemma split_on_append:
  "sep \<notin> set x \<Longrightarrow> split_on sep (x @ sep # s) = x # split_on sep s"
  by (induction x) (auto split: list.splits)

lemma split_on_join:
  assumes "xs \<noteq> []" and "\<forall>x\<in>set xs. sep \<notin> set x"
  shows "split_on sep (join [sep] xs) = xs"
  using assms
proof (induction xs)
  case Nil
  then show ?case by simp
next
  case (Cons x xs)
  show ?case
  proof (cases xs)
    case Nil
    then show ?thesis
      using Cons.prems by (simp add: split_on_free)
  next
    case (Cons y ys)
    then have "split_on sep (join [sep] xs) = xs"
      using Cons.IH Cons.prems by simp
    then show ?thesis
      using Cons Cons.prems split_on_append [of sep x "join [sep] xs"] by simp
  qed
qed

lemma join_split_on: "join [sep] (split_on sep s) = s"
proof (induction s)
  case Nil
  show ?case by simp
next
  case (Cons c cs)
  obtain w ws where r: "split_on sep cs = w # ws"
    using split_on_not_Nil [of sep cs] by (cases "split_on sep cs") auto
  show ?case
    using Cons r by (cases ws) auto
qed

lemma split_on_parts_free: "\<forall>x\<in>set (split_on sep s). sep \<notin> set x"
  by (induction s) (auto split: list.splits)

lemma fold_set_add_distinct:
  "distinct (acc @ xs) \<Longrightarrow> fold (\<lambda>x s. set_add s x) xs acc = acc @ xs"
proof (induction xs arbitrary: acc)
  case Nil
  show ?case by simp
next
  case (Cons x xs)
  have "fold (\<lambda>x s. set_add s x) xs (acc @ [x]) = (acc @ [x]) @ xs"
    using Cons.prems by (intro Cons.IH) simp
  moreover have "set_add acc x = acc @ [x]"
    using Cons.prems by (simp add: set_add_def)
  ultimately show ?case by simp
qed

lemma new_Set_distinct_id: "distinct xs \<Longrightarrow> new_Set xs = xs"
  using fold_set_add_distinct [of "[]" xs] by (simp add: new_Set_def)

lemma fold_set_add_props:
  "distinct acc \<Longrightarrow>
     distinct (fold (\<lambda>x s. set_add s x) xs acc) \<and>
     set (fold (\<lambda>x s. set_add s x) xs acc) = set acc \<union> set xs"
  by (induction xs arbitrary: acc) (auto simp: set_set_add distinct_set_add)

lemma new_Set_props: "distinct (new_Set xs) \<and> set (new_Set xs) = set xs"
  using fold_set_add_props [of "[]" xs] by (simp add: new_Set_def)

lemma or_default_cases:
  "or_default v d = (case v of None \<Rightarrow> d | Some s \<Rightarrow> if s = [] then d else s)"
  by (cases v) auto

text \<open>
  C3, as the code has it. On load each of the four scalar fields is the default
  (\<open>local\<close>, \<open>none\<close>, \<open>updated_at\<close>, \<open>desc\<close>) when its parameter is absent or empty,
  and the selection is empty when \<open>selected\<close> is absent or empty. Any other value of a
  scalar parameter is taken as it is, member of the field's enumeration or not. A
  non-empty \<open>selected\<close> is cut at its commas and the pieces form the selection, each
  once.
\<close>

theorem getUrlParams_fallback:
  "(absent_or_empty (search loc) ''env'' \<longrightarrow> environment (getUrlParams loc) = ''local'') \<and>
   (absent_or_empty (search loc) ''groupBy'' \<longrightarrow> groupBy (getUrlParams loc) = ''none'') \<and>
   (absent_or_empty (search loc) ''sortBy'' \<longrightarrow> sortBy (getUrlParams loc) = ''updated_at'') \<and>
   (absent_or_empty (search loc) ''sortDir'' \<longrightarrow> sortDirection (getUrlParams loc) = ''desc'') \<and>
   (absent_or_empty (search loc) ''selected'' \<longrightarrow> selectedProjects (getUrlParams loc) = []) \<and>
   (\<forall>v. v \<noteq> [] \<longrightarrow>
      (usp_get (search loc) ''env'' = Some v \<longrightarrow> environment (getUrlParams loc) = v) \<and>
      (usp_get (search loc) ''groupBy'' = Some v \<longrightarrow> groupBy (getUrlParams loc) = v) \<and>
      (usp_get (search loc) ''sortBy'' = Some v \<longrightarrow> sortBy (getUrlParams loc) = v) \<and>
      (usp_get (search loc) ''sortDir'' = Some v \<longrightarrow> sortDirection (getUrlParams loc) = v) \<and>
      (usp_get (search loc) ''selected'' = Some v \<longrightarrow>
         distinct (selectedProjects (getUrlParams loc)) \<and>
         set (selectedProjects (getUrlParams loc)) = set (split_on CHR '','' v) \<and>
         join '','' (split_on CHR '','' v) = v \<and>
         (\<forall>x\<in>set (split_on CHR '','' v). CHR '','' \<notin> set x)))"
  by (auto simp: getUrlParams_def absent_or_empty_def Let_def new_Set_props join_split_on
        split_on_parts_free)

theorem getUrlParams_fallback_witness:
  "usp_get (search example_location) ''env'' = Some ''production'' \<and>
   environment (getUrlParams example_location) = ''production'' \<and>
   absent_or_empty (search example_location) ''groupBy'' \<and>
   groupBy (getUrlParams example_location) = ''none'' \<and>
   usp_get (search example_location) ''selected'' = Some ''p1,p2,p1'' \<and>
   selectedProjects (getUrlParams example_location) = [''p1'', ''p2'']"
  using getUrlParams_fallback [of example_location]
  by (simp add: example_location_def getUrlParams_def absent_or_empty_def new_Set_def
        set_add_def)

text \<open>The query \<^verbatim>\<open>?env=staging\<close> names no environment, and the field is not the
  default.\<close>

theorem getUrlParams_unvalidated_counterexample:
  "environment (getUrlParams \<lparr>pathname = ''/'', search = [(''env'', ''staging'')]\<rparr>) \<noteq> ''local''"
  by (simp add: getUrlParams_def)

lemma updated_params_one:
  "updated_params (no_update\<lparr>upd_environment := Some v\<rparr>) q = usp_set q ''env'' v"
  "updated_params (no_update\<lparr>upd_groupBy := Some v\<rparr>) q = usp_set q ''groupBy'' v"
  "updated_params (no_update\<lparr>upd_sortBy := Some v\<rparr>) q = usp_set q ''sortBy'' v"
  "updated_params (no_update\<lparr>upd_sortDirection := Some v\<rparr>) q = usp_set q ''sortDir'' v"
  "updated_params (no_update\<lparr>upd_selectedProjects := Some s\<rparr>) q =
     (if s \<noteq> [] then usp_set q ''selected'' (join '','' s) else usp_delete q ''selected'')"
  by (simp_all add: updated_params_def no_update_def)

lemma updateUrlParams_accepted:
  assumes "\<not> scheme_relative (pathname loc)"
  shows "updateUrlParams u loc =
           (None, \<lparr> pathname = pathname loc, search = updated_params u (search loc) \<rparr>)"
  using assms by (simp add: updateUrlParams_def replaceState_def)

lemma updateUrlParams_refused:
  assumes "scheme_relative (pathname loc)"
  shows "updateUrlParams u loc = (Some SecurityError, loc)"
  using assms by (simp add: updateUrlParams_def replaceState_def)

lemma run_effect_accepted:
  assumes "\<not> scheme_relative path"
  shows "run_effect (updateUrlParams u) (None, \<lparr> pathname = path, search = q \<rparr>) =
           (None, \<lparr> pathname = path, search = updated_params u q \<rparr>)"
  using assms by (simp add: run_effect_def updateUrlParams_def replaceState_def)

lemma synchronize_accepted:
  assumes "\<not> scheme_relative (pathname loc)"
  shows "synchronize st loc =
     (None,
      \<lparr> pathname = pathname loc,
        search =
          (let p = usp_set (usp_set (usp_set (usp_set (search loc) ''env'' (environment st))
                     ''groupBy'' (groupBy st)) ''sortBy'' (sortBy st)) ''sortDir''
                     (sortDirection st)
           in if selectedProjects st \<noteq> []
              then usp_set p ''selected'' (join '','' (selectedProjects st))
              else usp_delete p ''selected'') \<rparr>)"
  unfolding synchronize_def Let_def updateUrlParams_accepted [OF assms]
    run_effect_accepted [OF assms] updated_params_one
  by simp

lemma join_eq_Nil:
  "join [sep] xs = [] \<longleftrightarrow> xs = [] \<or> xs = [[]]"
proof (induction xs)
  case Nil
  show ?case by simp
next
  case (Cons x xs)
  show ?case by (cases xs) auto
qed

text \<open>
  C4, as the code has it. On a page whose path does not begin with \<^verbatim>\<open>//\<close>, and for a
  view state whose four scalar fields are not empty (the members of the enumerations
  are not) and whose selection holds no identifier with a comma and is not the one
  empty identifier: the five effects write the location without an error, and reading
  the state back from that location gives the same state, the selection in the same
  order.
\<close>

theorem hydrate_synchronize:
  assumes "environment st \<noteq> []" and "groupBy st \<noteq> []"
    and "sortBy st \<noteq> []" and "sortDirection st \<noteq> []"
    and "distinct (selectedProjects st)"
    and "\<forall>x\<in>set (selectedProjects st). CHR '','' \<notin> set x"
    and "selectedProjects st \<noteq> [[]]"
    and "\<not> scheme_relative (pathname loc)"
  shows "fst (synchronize st loc) = None \<and> getUrlParams (snd (synchronize st loc)) = st"
proof -
  let ?q = "search (snd (synchronize st loc))"
  have e: "usp_get ?q ''env'' = Some (environment st)"
    and g: "usp_get ?q ''groupBy'' = Some (groupBy st)"
    and s: "usp_get ?q ''sortBy'' = Some (sortBy st)"
    and d: "usp_get ?q ''sortDir'' = Some (sortDirection st)"
    by (simp_all add: synchronize_accepted [OF assms(8)] Let_def usp_get_set usp_get_delete)
  have sel: "(case usp_get ?q ''selected'' of
               None \<Rightarrow> []
             | Some s \<Rightarrow> if s \<noteq> [] then new_Set (split_on CHR '','' s) else []) =
             selectedProjects st"
  proof (cases "selectedProjects st = []")
    case True
    then show ?thesis
      by (simp add: synchronize_accepted [OF assms(8)] Let_def usp_get_delete)
  next
    case False
    have j: "join '','' (selectedProjects st) \<noteq> []"
      using False assms(7) join_eq_Nil [of "CHR '',''" "selectedProjects st"] by simp
    have "usp_get ?q ''selected'' = Some (join '','' (selectedProjects st))"
      using False by (simp add: synchronize_accepted [OF assms(8)] Let_def usp_get_set)
    moreover have "split_on CHR '','' (join '','' (selectedProjects st)) = selectedProjects st"
      using split_on_join [OF False assms(6)] by simp
    ultimately show ?thesis
      using j assms(5) by (simp add: new_Set_distinct_id)
  qed
  have "getUrlParams (snd (synchronize st loc)) =
        \<lparr> environment = environment st, groupBy = groupBy st, sortBy = sortBy st,
          sortDirection = sortDirection st, selectedProjects = selectedProjects st \<rparr>"
    unfolding getUrlParams_def Let_def e g s d sel using assms(1-4) by simp
  moreover have "fst (synchronize st loc) = None"
    by (simp add: synchronize_accepted [OF assms(8)])
  ultimately show ?thesis by simp
qed

theorem hydrate_synchronize_witness:
  "environment example_state \<noteq> [] \<and> groupBy example_state \<noteq> [] \<and>
   sortBy example_state \<noteq> [] \<and> sortDirection example_state \<noteq> [] \<and>
   distinct (selectedProjects example_state) \<and>
   CHR '','' \<notin> set ''p2'' \<and> CHR '','' \<notin> set ''p1'' \<and>
   selectedProjects example_state = [''p2'', ''p1''] \<and>
   \<not> scheme_relative (pathname example_location) \<and>
   fst (synchronize example_state example_location) = None \<and>
   getUrlParams (snd (synchronize example_state example_location)) = example_state \<and>
   search (snd (synchronize example_state example_location)) =
     [(''env'', ''production''), (''selected'', ''p2,p1''), (''tab'', ''x''),
      (''groupBy'', ''agency''), (''sortBy'', ''name''), (''sortDir'', ''asc'')]"
proof -
  have h: "environment example_state \<noteq> []" "groupBy example_state \<noteq> []"
    "sortBy example_state \<noteq> []" "sortDirection example_state \<noteq> []"
    "distinct (selectedProjects example_state)"
    "\<forall>x\<in>set (selectedProjects example_state). CHR '','' \<notin> set x"
    "selectedProjects example_state \<noteq> [[]]"
    "\<not> scheme_relative (pathname example_location)"
    by (simp_all add: example_state_def example_location_def scheme_relative_def)
  have q: "search (snd (synchronize example_state example_location)) =
     [(''env'', ''production''), (''selected'', ''p2,p1''), (''tab'', ''x''),
      (''groupBy'', ''agency''), (''sortBy'', ''name''), (''sortDir'', ''asc'')]"
    by (simp add: synchronize_accepted [OF h(8)] Let_def)
       (simp add: example_state_def example_location_def usp_delete_def)
  show ?thesis
    using h q hydrate_synchronize [OF h] by (simp add: example_state_def)
qed

text \<open>A selected identifier with a comma comes back as two identifiers.\<close>

theorem hydrate_synchronize_counterexample:
  "fst (synchronize comma_state \<lparr>pathname = ''/'', search = []\<rparr>) = None \<and>
   set (selectedProjects
          (getUrlParams (snd (synchronize comma_state \<lparr>pathname = ''/'', search = []\<rparr>))))
     \<noteq> set (selectedProjects comma_state)"
proof -
  have n: "\<not> scheme_relative (pathname \<lparr>pathname = ''/'', search = []\<rparr>)"
    by (simp add: scheme_relative_def)
  show ?thesis
    by (simp add: synchronize_accepted [OF n] Let_def)
       (simp add: comma_state_def getUrlParams_def Let_def new_Set_def set_add_def)
qed

text \<open>
  C7. The parameters that an update with the empty selection serializes hold no
  parameter \<open>selected\<close>. Those that an update with a selection that is not empty
  serializes hold exactly one, whose value is the identifiers joined by commas. On a
  page whose path does not begin with \<^verbatim>\<open>//\<close> the call raises no error and these
  parameters are the query of the location after it.
\<close>

theorem selected_parameter_written:
  assumes "upd_selectedProjects u = Some S"
  shows "(S = [] \<longrightarrow>
            ''selected'' \<notin> fst ` set (updated_params u (search loc)) \<and>
            usp_get (updated_params u (search loc)) ''selected'' = None) \<and>
         (S \<noteq> [] \<longrightarrow>
            filter (\<lambda>(k, v). k = ''selected'') (updated_params u (search loc)) =
              [(''selected'', join '','' S)] \<and>
            usp_get (updated_params u (search loc)) ''selected'' = Some (join '','' S)) \<and>
         (\<not> scheme_relative (pathname loc) \<longrightarrow>
            updateUrlParams u loc =
              (None, \<lparr> pathname = pathname loc, search = updated_params u (search loc) \<rparr>))"
  using assms
  by (simp add: updated_params_def Let_def keys_usp_delete filter_key_usp_set usp_get_set
        usp_get_delete updateUrlParams_accepted)

theorem selected_parameter_written_witness:
  "\<not> scheme_relative (pathname example_location) \<and>
   search (snd (updateUrlParams (no_update\<lparr>upd_selectedProjects := Some [''p3'', ''p1'']\<rparr>)
                  example_location)) =
     [(''env'', ''production''), (''selected'', ''p3,p1''), (''tab'', ''x'')] \<and>
   search (snd (updateUrlParams (no_update\<lparr>upd_selectedProjects := Some []\<rparr>)
                  example_location)) =
     [(''env'', ''production''), (''tab'', ''x'')]"
proof -
  have n: "\<not> scheme_relative (pathname example_location)"
    by (simp add: example_location_def scheme_relative_def)
  have a: "search (snd (updateUrlParams (no_update\<lparr>upd_selectedProjects := Some [''p3'', ''p1'']\<rparr>)
                  example_location)) =
     [(''env'', ''production''), (''selected'', ''p3,p1''), (''tab'', ''x'')]"
    by (simp add: updateUrlParams_accepted [OF n] updated_params_one)
       (simp add: example_location_def usp_delete_def)
  have b: "search (snd (updateUrlParams (no_update\<lparr>upd_selectedProjects := Some []\<rparr>)
                  example_location)) =
     [(''env'', ''production''), (''tab'', ''x'')]"
    by (simp add: updateUrlParams_accepted [OF n] updated_params_one)
       (simp add: example_location_def usp_delete_def)
  show ?thesis
    apply (insert selected_parameter_written
        [of "no_update\<lparr>upd_selectedProjects := Some [''p3'', ''p1'']\<rparr>" "[''p3'', ''p1'']"
          example_location])
    apply (intro conjI)
      apply (rule n a b)+
    done
qed

lemma frame_step:
  "n \<in> A \<Longrightarrow>
   filter (\<lambda>(k, v). k \<notin> A) (case ov of None \<Rightarrow> ps | Some v \<Rightarrow> usp_set ps n v) =
   filter (\<lambda>(k, v). k \<notin> A) ps"
  by (cases ov) (simp_all add: frame_usp_set)

lemma frame_step_selected:
  "n \<in> A \<Longrightarrow>
   filter (\<lambda>(k, v). k \<notin> A)
     (case os of None \<Rightarrow> ps
      | Some s \<Rightarrow> if s \<noteq> [] then usp_set ps n (f s) else usp_delete ps n) =
   filter (\<lambda>(k, v). k \<notin> A) ps"
  by (cases os) (simp_all add: frame_usp_set frame_usp_delete)

lemma frame_skip:
  "ov = None \<Longrightarrow> (case ov of None \<Rightarrow> ps | Some v \<Rightarrow> g v) = ps"
  by simp

lemma updated_params_frame:
  "filter (\<lambda>(k, v). k \<notin> updated_names u) (updated_params u q) =
     filter (\<lambda>(k, v). k \<notin> updated_names u) q"
proof -
  let ?A = "updated_names u"
  let ?F = "filter (\<lambda>(k, v). k \<notin> ?A)"
  define p1 where "p1 = (case upd_environment u of None \<Rightarrow> q | Some v \<Rightarrow> usp_set q ''env'' v)"
  define p2 where "p2 = (case upd_groupBy u of None \<Rightarrow> p1 | Some v \<Rightarrow> usp_set p1 ''groupBy'' v)"
  define p3 where "p3 = (case upd_sortBy u of None \<Rightarrow> p2 | Some v \<Rightarrow> usp_set p2 ''sortBy'' v)"
  define p4 where "p4 = (case upd_sortDirection u of None \<Rightarrow> p3 | Some v \<Rightarrow> usp_set p3 ''sortDir'' v)"
  define p5 where "p5 = (case upd_selectedProjects u of None \<Rightarrow> p4
     | Some s \<Rightarrow> if s \<noteq> [] then usp_set p4 ''selected'' (join '','' s) else usp_delete p4 ''selected'')"
  have r: "updated_params u q = p5"
    unfolding p5_def p4_def p3_def p2_def p1_def updated_params_def Let_def by simp
  have 1: "?F p1 = ?F q"
  proof (cases "upd_environment u")
    case None then show ?thesis by (simp add: p1_def)
  next
    case (Some v)
    then have "''env'' \<in> ?A" by (simp add: updated_names_def)
    then show ?thesis unfolding p1_def by (rule frame_step)
  qed
  have 2: "?F p2 = ?F p1"
  proof (cases "upd_groupBy u")
    case None then show ?thesis by (simp add: p2_def)
  next
    case (Some v)
    then have "''groupBy'' \<in> ?A" by (simp add: updated_names_def)
    then show ?thesis unfolding p2_def by (rule frame_step)
  qed
  have 3: "?F p3 = ?F p2"
  proof (cases "upd_sortBy u")
    case None then show ?thesis by (simp add: p3_def)
  next
    case (Some v)
    then have "''sortBy'' \<in> ?A" by (simp add: updated_names_def)
    then show ?thesis unfolding p3_def by (rule frame_step)
  qed
  have 4: "?F p4 = ?F p3"
  proof (cases "upd_sortDirection u")
    case None then show ?thesis by (simp add: p4_def)
  next
    case (Some v)
    then have "''sortDir'' \<in> ?A" by (simp add: updated_names_def)
    then show ?thesis unfolding p4_def by (rule frame_step)
  qed
  have 5: "?F p5 = ?F p4"
  proof (cases "upd_selectedProjects u")
    case None then show ?thesis by (simp add: p5_def)
  next
    case (Some v)
    then have "''selected'' \<in> ?A" by (simp add: updated_names_def)
    then show ?thesis unfolding p5_def by (rule frame_step_selected)
  qed
  show ?thesis
    using r 1 2 3 4 5 by simp
qed

text \<open>
  C10. \<^verbatim>\<open>updateUrlParams\<close> keeps every pair of the query whose name is not the
  parameter of a field given in the update, values and order, whatever the name, and
  keeps the path: in the location after the call, whether \<^verbatim>\<open>replaceState\<close> accepts
  the new URL or throws, and in the parameters that the call serializes.
\<close>

theorem updateUrlParams_frame:
  "filter (\<lambda>(k, v). k \<notin> updated_names u) (search (snd (updateUrlParams u loc))) =
     filter (\<lambda>(k, v). k \<notin> updated_names u) (search loc) \<and>
   pathname (snd (updateUrlParams u loc)) = pathname loc \<and>
   filter (\<lambda>(k, v). k \<notin> updated_names u) (updated_params u (search loc)) =
     filter (\<lambda>(k, v). k \<notin> updated_names u) (search loc)"
proof (cases "scheme_relative (pathname loc)")
  case True
  then show ?thesis
    by (simp add: updateUrlParams_refused updated_params_frame)
next
  case False
  then show ?thesis
    by (simp add: updateUrlParams_accepted updated_params_frame)
qed

theorem updateUrlParams_frame_witness:
  "updated_names (no_update\<lparr>upd_selectedProjects := Some []\<rparr>) = {''selected''} \<and>
   search (snd (updateUrlParams (no_update\<lparr>upd_selectedProjects := Some []\<rparr>) example_location)) =
     [(''env'', ''production''), (''tab'', ''x'')] \<and>
   filter (\<lambda>(k, v). k \<notin> {''selected''}) (search example_location) =
     [(''env'', ''production''), (''tab'', ''x'')]"
  using updateUrlParams_frame [of "no_update\<lparr>upd_selectedProjects := Some []\<rparr>" example_location]
  by (simp add: updated_names_def no_update_def updateUrlParams_def replaceState_def
        scheme_relative_def updated_params_def example_location_def usp_delete_def)

subsection \<open>Sorting by a field that is not a sort field\<close>

lemma array_sort_all_equal:
  assumes "\<forall>a\<in>set xs. \<forall>b\<in>set xs. cmp a b = 0"
  shows "array_sort cmp xs = xs"
proof -
  have "filter (\<lambda>x. True) (array_sort cmp xs) = filter (\<lambda>x. True) xs"
    by (rule filter_array_sort) (use assms in simp)
  then show ?thesis by simp
qed

lemma compareFn_other:
  assumes "f \<notin> set sort_fields" and "f \<notin> set project_keys"
  shows "compareFn parse f dir a b = 0"
proof -
  have "sort_value parse f a = project_prop a f" "sort_value parse f b = project_prop b f"
    using assms(1) by (simp_all add: sort_value_def sort_fields_def)
  moreover have "strict_eq (project_prop a f) (project_prop b f)"
    using assms(2) by (simp add: project_prop_def project_keys_def)
  ultimately show ?thesis
    by (simp add: compareFn_def)
qed

text \<open>
  C2, as the code has it. A sort field that is none of the five and names no property
  of a project makes every comparison equal: the sort returns the projects in the
  order of the snapshot, for either direction. It does not order them by name.
\<close>

theorem sort_unrecognized_field:
  assumes "f \<notin> set sort_fields" and "f \<notin> set project_keys"
  shows "sortedProjects parse (Some d) f dir = unique_projects (projects d)"
  by (simp add: sortedProjects_def array_sort_all_equal compareFn_other [OF assms])

theorem sort_unrecognized_field_witness:
  "''foo'' \<notin> set sort_fields \<and> ''foo'' \<notin> set project_keys \<and>
   sortedProjects example_parse (Some (example_data [] example_projects)) ''foo'' ''asc'' =
     example_projects"
proof -
  have h: "''foo'' \<notin> set sort_fields" "''foo'' \<notin> set project_keys"
    by (simp_all add: sort_fields_def project_keys_def)
  show ?thesis
    using h sort_unrecognized_field [OF h, of example_parse "example_data [] example_projects" "''asc''"]
    by (simp add: example_data_def)
qed

text \<open>The three example projects are named \<open>B\<close>, \<open>A\<close>, \<open>C\<close>: the field \<open>foo\<close> leaves
  them so, the field \<open>name\<close> does not.\<close>

lemma sort_by_name_example:
  "sortedProjects example_parse (Some (example_data [] example_projects)) ''name'' ''asc'' =
     [example_project ''p2'' ''A'' ''alpha'' ''bob'' ''2025-01-01'',
      example_project ''p1'' ''B'' ''Zeta'' ''ann'' ''2025-01-02'',
      example_project ''p3'' ''C'' ''alpha'' ''ann'' ''2025-01-01'']"
  by (simp add: sortedProjects_def example_data_def example_projects_def array_sort_def
        compareFn_def sort_value_def project_prop_def example_project_def)

theorem sort_unrecognized_field_counterexample:
  "sortedProjects example_parse (Some (example_data [] example_projects)) ''foo'' ''asc'' \<noteq>
   sortedProjects example_parse (Some (example_data [] example_projects)) ''name'' ''asc''"
proof -
  have "sortedProjects example_parse (Some (example_data [] example_projects)) ''foo'' ''asc'' =
          example_projects"
    by (simp add: sortedProjects_def example_data_def example_projects_def array_sort_def
          compareFn_def sort_value_def project_prop_def example_project_def
          object_prototype_keys_def)
  then show ?thesis
    by (simp add: sort_by_name_example) (simp add: example_projects_def example_project_def)
qed

subsection \<open>Direction and stability of the sort\<close>

















subsection \<open>The groups\<close>

text \<open>One step of the loop, for a key that is not inherited.\<close>

lemma map_of_push:
  "map_of (map (\<lambda>(k, v). if k = kp then (k, v @ [p]) else (k, v)) G) k =
     (if k = kp then map_option (\<lambda>v. v @ [p]) (map_of G k) else map_of G k)"
  by (induction G) auto

lemma keys_push:
  "map fst (map (\<lambda>(k, v). if k = kp then (k, v @ [p]) else (k, v)) G) = map fst G"
  by (induction G) auto

lemma mset_concat_push:
  assumes "distinct (map fst G)"
  shows "mset (concat (map snd (map (\<lambda>(k, v). if k = kp then (k, v @ [p]) else (k, v)) G))) =
           (if kp \<in> fst ` set G then add_mset p (mset (concat (map snd G)))
            else mset (concat (map snd G)))"
  using assms
proof (induction G)
  case Nil
  show ?case by simp
next
  case (Cons e G)
  obtain k v where e: "e = (k, v)" by (cases e)
  show ?case
  proof (cases "k = kp")
    case True
    then have "kp \<notin> fst ` set G"
      using Cons.prems e by auto
    then show ?thesis
      using Cons e True by simp
  next
    case False
    then show ?thesis
      using Cons e by auto
  qed
qed

lemma group_step_own:
  assumes "map_of G (group_key_of g p) = Some v"
  shows "group_step g G p =
           Inr (map (\<lambda>(k, w). if k = group_key_of g p then (k, w @ [p]) else (k, w)) G)"
  using assms by (simp add: group_step_def group_key_of_def Let_def)

lemma group_step_new:
  assumes "map_of G (group_key_of g p) = None"
    and "group_key_of g p \<notin> set object_prototype_keys"
  shows "group_step g G p = Inr (G @ [(group_key_of g p, [p])])"
  using assms by (simp add: group_step_def group_key_of_def Let_def)

lemma group_step_inherited:
  assumes "map_of G (group_key_of g p) = None"
    and "group_key_of g p \<in> set object_prototype_keys"
  shows "group_step g G p = Inl TypeError"
  using assms by (simp add: group_step_def group_key_of_def Let_def)

lemma group_step_ok:
  assumes np: "group_key_of g p \<notin> set object_prototype_keys"
    and d: "distinct (map fst G)"
  shows "\<exists>G'. group_step g G p = Inr G' \<and> distinct (map fst G') \<and>
           fst ` set G' = insert (group_key_of g p) (fst ` set G) \<and>
           (\<forall>k. members_of G' k = members_of G k @ (if k = group_key_of g p then [p] else [])) \<and>
           mset (concat (map snd G')) = add_mset p (mset (concat (map snd G)))"
proof (cases "map_of G (group_key_of g p)")
  case None
  let ?G' = "G @ [(group_key_of g p, [p])]"
  have nk: "group_key_of g p \<notin> fst ` set G"
    using None by (simp add: map_of_eq_None_iff)
  have "group_step g G p = Inr ?G'"
    by (rule group_step_new [OF None np])
  moreover have "distinct (map fst ?G')"
    using d nk by simp
  moreover have "fst ` set ?G' = insert (group_key_of g p) (fst ` set G)"
    by simp
  moreover have "members_of ?G' k = members_of G k @ (if k = group_key_of g p then [p] else [])"
    for k
    using None by (auto simp: members_of_def map_add_def split: option.splits)
  moreover have "mset (concat (map snd ?G')) = add_mset p (mset (concat (map snd G)))"
    by simp
  ultimately show ?thesis by blast
next
  case (Some v)
  let ?G' = "map (\<lambda>(k, w). if k = group_key_of g p then (k, w @ [p]) else (k, w)) G"
  have ik: "group_key_of g p \<in> fst ` set G"
    using Some map_of_eq_None_iff [of G "group_key_of g p"] by auto
  have "group_step g G p = Inr ?G'"
    by (rule group_step_own [OF Some])
  moreover have "distinct (map fst ?G')"
    using d by (simp only: keys_push)
  moreover have "fst ` set ?G' = insert (group_key_of g p) (fst ` set G)"
  proof -
    have "fst ` set ?G' = set (map fst ?G')" by (simp only: set_map)
    also have "\<dots> = fst ` set G" by (simp only: keys_push set_map)
    finally show ?thesis using ik by auto
  qed
  moreover have "members_of ?G' k = members_of G k @ (if k = group_key_of g p then [p] else [])"
    for k
    using Some by (auto simp: members_of_def map_of_push split: option.splits)
  moreover have "mset (concat (map snd ?G')) = add_mset p (mset (concat (map snd G)))"
    using mset_concat_push [OF d, of "group_key_of g p" p] ik by simp
  ultimately show ?thesis by blast
qed

text \<open>The whole loop.\<close>

lemma group_all_ok:
  assumes "\<forall>p\<in>set ps. group_key_of g p \<notin> set object_prototype_keys"
    and "distinct (map fst G)"
  shows "\<exists>G'. group_all g G ps = Inr G' \<and> distinct (map fst G') \<and>
           fst ` set G' = fst ` set G \<union> group_key_of g ` set ps \<and>
           (\<forall>k. members_of G' k = members_of G k @ filter (\<lambda>p. group_key_of g p = k) ps) \<and>
           mset (concat (map snd G')) = mset (concat (map snd G)) + mset ps"
  using assms
proof (induction ps arbitrary: G)
  case Nil
  then show ?case by simp
next
  case (Cons p ps)
  have np: "group_key_of g p \<notin> set object_prototype_keys"
    using Cons.prems(1) by simp
  obtain G1 where s: "group_step g G p = Inr G1" and d1: "distinct (map fst G1)"
    and k1: "fst ` set G1 = insert (group_key_of g p) (fst ` set G)"
    and m1: "\<And>k. members_of G1 k = members_of G k @ (if k = group_key_of g p then [p] else [])"
    and c1: "mset (concat (map snd G1)) = add_mset p (mset (concat (map snd G)))"
    using group_step_ok [OF np Cons.prems(2)] by blast
  have rest: "\<forall>q\<in>set ps. group_key_of g q \<notin> set object_prototype_keys"
    using Cons.prems(1) by simp
  obtain G2 where a: "group_all g G1 ps = Inr G2" and d2: "distinct (map fst G2)"
    and k2: "fst ` set G2 = fst ` set G1 \<union> group_key_of g ` set ps"
    and m2: "\<And>k. members_of G2 k = members_of G1 k @ filter (\<lambda>p. group_key_of g p = k) ps"
    and c2: "mset (concat (map snd G2)) = mset (concat (map snd G1)) + mset ps"
    using Cons.IH [OF rest d1] by blast
  have "group_all g G (p # ps) = Inr G2"
    using s a by simp
  moreover have "fst ` set G2 = fst ` set G \<union> group_key_of g ` set (p # ps)"
    using k1 k2 by auto
  moreover have "members_of G2 k = members_of G k @ filter (\<lambda>q. group_key_of g q = k) (p # ps)"
    for k
    using m1 [of k] m2 [of k] by auto
  moreover have "mset (concat (map snd G2)) = mset (concat (map snd G)) + mset (p # ps)"
    using c1 c2 by simp
  ultimately show ?case
    using d2 by blast
qed

text \<open>The entries are the own properties in some order, and so is their sort.\<close>

lemma mset_object_entries: "mset (object_entries G) = mset G"
  by (simp add: object_entries_def)

lemma mset_concat_perm:
  assumes "mset E = mset G"
  shows "mset (concat (map f E)) = mset (concat (map f G))"
proof -
  have "mset (concat (map f E)) = sum_mset (image_mset (\<lambda>e. mset (f e)) (mset E))"
    by (simp add: mset_concat comp_def flip: sum_mset_sum_list)
  also have "\<dots> = sum_mset (image_mset (\<lambda>e. mset (f e)) (mset G))"
    by (simp only: assms)
  also have "\<dots> = mset (concat (map f G))"
    by (simp add: mset_concat comp_def flip: sum_mset_sum_list)
  finally show ?thesis .
qed

lemma consistent_pairs:
  assumes "consistent lc"
  shows "total_on (\<lambda>(a, x) (b, y). lc a b) A" and "trans_on (\<lambda>(a, x) (b, y). lc a b) A"
proof -
  have t: "lc a b \<le> 0 \<or> lc b a \<le> 0" for a b
    using assms unfolding consistent_def total_on_def by blast
  have r: "lc a b \<le> 0 \<Longrightarrow> lc b c \<le> 0 \<Longrightarrow> lc a c \<le> 0" for a b c
    using assms unfolding consistent_def trans_on_def by blast
  show "total_on (\<lambda>(a, x) (b, y). lc a b) A"
    unfolding total_on_def using t by auto
  show "trans_on (\<lambda>(a, x) (b, y). lc a b) A"
    unfolding trans_on_def using r by (auto simp: split_def)
qed

text \<open>The groups of a dimension other than \<open>none\<close>, when no key is inherited.\<close>

lemma grouped_by_key:
  assumes "g \<noteq> ''none''"
    and "\<forall>p\<in>set ps. group_key_of g p \<notin> set object_prototype_keys"
  shows "\<exists>gs. groupedProjects lc g ps = Inr gs \<and>
            distinct (map group_key gs) \<and>
            set (map group_key gs) = group_key_of g ` set ps \<and>
            (\<forall>grp\<in>set gs.
               group_title grp = group_key grp \<and>
               group_projects grp = filter (\<lambda>p. group_key_of g p = group_key grp) ps) \<and>
            (consistent lc \<longrightarrow> sorted_wrt (\<lambda>a b. lc (group_key a) (group_key b) \<le> 0) gs) \<and>
            mset (concat (map group_projects gs)) = mset ps"
proof -
  let ?mk = "\<lambda>(k, ps). \<lparr> group_key = k, group_title = k, group_projects = ps \<rparr>"
  let ?cmp = "\<lambda>(a, x) (b, y). lc a (b::string)"
  obtain G where a: "group_all g [] ps = Inr G" and d: "distinct (map fst G)"
    and k: "fst ` set G = group_key_of g ` set ps"
    and m: "\<And>k. members_of G k = filter (\<lambda>p. group_key_of g p = k) ps"
    and c: "mset (concat (map snd G)) = mset ps"
    using group_all_ok [OF assms(2), of "[]"] by (auto simp: members_of_def)
  define E :: "(string \<times> UniqueProject list) list" where "E = array_sort ?cmp (object_entries G)"
  define gs where "gs = map ?mk E"
  have mE: "mset E = mset G"
    by (simp add: E_def mset_array_sort mset_object_entries)
  have sE: "set E = set G"
    by (rule mset_eq_setD [OF mE])
  have ng: "g \<noteq> ''none''"
    by (rule assms(1))
  have r: "groupedProjects lc g ps = Inr gs"
    using ng a by (simp add: groupedProjects_def gs_def E_def)
  have keys: "map group_key gs = map fst E"
    by (simp add: gs_def split_def)
  have prj: "map group_projects gs = map snd E"
    by (simp add: gs_def split_def)
  have "mset (map fst E) = mset (map fst G)"
    using mE by (metis mset_map)
  then have dk: "distinct (map fst E)"
    using d mset_eq_imp_distinct_iff by blast
  have sk: "set (map group_key gs) = group_key_of g ` set ps"
    using k sE by (simp add: keys)
  have grp: "group_title grp = group_key grp \<and>
             group_projects grp = filter (\<lambda>p. group_key_of g p = group_key grp) ps"
    if mem: "grp \<in> set gs" for grp
  proof -
    obtain kk v where e: "(kk, v) \<in> set E"
      and g: "grp = \<lparr> group_key = kk, group_title = kk, group_projects = v \<rparr>"
      using mem unfolding gs_def by auto
    have "map_of G kk = Some v"
      using e d sE by simp
    then have "v = filter (\<lambda>p. group_key_of g p = kk) ps"
      using m [of kk] by (simp add: members_of_def)
    then show ?thesis
      using g by simp
  qed
  have so: "sorted_wrt (\<lambda>a b. lc (group_key a) (group_key b) \<le> 0) gs" if cl: "consistent lc"
  proof -
    have "sorted_wrt (\<lambda>a b. ?cmp a b \<le> 0) E"
      unfolding E_def by (rule sorted_array_sort) (rule consistent_pairs [OF cl])+
    then show ?thesis
      by (simp add: gs_def sorted_wrt_map split_def)
  qed
  have "mset (concat (map snd E)) = mset (concat (map snd G))"
    by (rule mset_concat_perm [OF mE])
  then have all: "mset (concat (map group_projects gs)) = mset ps"
    using c by (simp add: prj)
  show ?thesis
    using r dk sk grp so all by (intro exI [of _ gs]) (simp add: keys)
qed

text \<open>
  C5, as the code has it. Without a dimension there is one group, with key \<open>all\<close> and
  the empty title, of all the projects in their order. By author or by agency, when no
  project has for its key the name of a member of \<^verbatim>\<open>Object.prototype\<close>, and for a
  consistent \<^verbatim>\<open>localeCompare\<close>: the keys of the groups are the keys of the projects,
  each once; the title of a group is its key and its projects are the projects with
  exactly that key, in their order in the list; the groups stand in ascending order of
  \<^verbatim>\<open>localeCompare\<close> on their keys; and the groups together hold every project
  exactly once.
\<close>

theorem groupedProjects_partition:
  assumes "consistent lc"
    and "g = ''author'' \<or> g = ''agency''"
    and "\<forall>p\<in>set ps. group_key_of g p \<notin> set object_prototype_keys"
  shows "groupedProjects lc ''none'' ps =
           Inr [\<lparr> group_key = ''all'', group_title = [], group_projects = ps \<rparr>] \<and>
         (\<exists>gs. groupedProjects lc g ps = Inr gs \<and>
            distinct (map group_key gs) \<and>
            set (map group_key gs) = group_key_of g ` set ps \<and>
            (\<forall>grp\<in>set gs.
               group_title grp = group_key grp \<and>
               group_projects grp = filter (\<lambda>p. group_key_of g p = group_key grp) ps) \<and>
            sorted_wrt (\<lambda>a b. lc (group_key a) (group_key b) \<le> 0) gs \<and>
            mset (concat (map group_projects gs)) = mset ps)"
proof
  show "groupedProjects lc ''none'' ps =
          Inr [\<lparr> group_key = ''all'', group_title = [], group_projects = ps \<rparr>]"
    by (simp add: groupedProjects_def)
next
  have ng: "g \<noteq> ''none''"
    using assms(2) by auto
  show "\<exists>gs. groupedProjects lc g ps = Inr gs \<and>
            distinct (map group_key gs) \<and>
            set (map group_key gs) = group_key_of g ` set ps \<and>
            (\<forall>grp\<in>set gs.
               group_title grp = group_key grp \<and>
               group_projects grp = filter (\<lambda>p. group_key_of g p = group_key grp) ps) \<and>
            sorted_wrt (\<lambda>a b. lc (group_key a) (group_key b) \<le> 0) gs \<and>
            mset (concat (map group_projects gs)) = mset ps"
    using grouped_by_key [OF ng assms(3), of lc] assms(1) by blast
qed

text \<open>The collation of the examples is consistent.\<close>

lemma ascii_collation_le: "(ascii_collation a b \<le> 0) = (collation_key a \<le> collation_key b)"
  by (auto simp: ascii_collation_def)

lemma consistent_ascii_collation: "consistent ascii_collation"
  unfolding consistent_def total_on_def trans_on_def ascii_collation_le
  by (auto intro: order_trans)

text \<open>The example projects have the agencies \<open>Zeta\<close>, \<open>alpha\<close>, \<open>alpha\<close>. The collation puts
  the group \<open>alpha\<close> first; in the order of the strings \<open>Zeta\<close> is the smaller key.\<close>

lemma grouped_example:
  "groupedProjects ascii_collation ''agency'' example_projects =
     Inr [\<lparr> group_key = ''alpha'', group_title = ''alpha'',
             group_projects =
               [example_project ''p2'' ''A'' ''alpha'' ''bob'' ''2025-01-01'',
                example_project ''p3'' ''C'' ''alpha'' ''ann'' ''2025-01-01''] \<rparr>,
          \<lparr> group_key = ''Zeta'', group_title = ''Zeta'',
             group_projects = [example_project ''p1'' ''B'' ''Zeta'' ''ann'' ''2025-01-02''] \<rparr>]"
  by (simp add: groupedProjects_def group_step_def object_entries_def is_array_index_def
        is_digit_def array_sort_def ascii_collation_def collation_key_def lower_ascii_def
        is_upper_ascii_def example_projects_def example_project_def object_prototype_keys_def
        Let_def)

theorem groupedProjects_partition_witness:
  "consistent ascii_collation \<and>
   list_all (\<lambda>p. group_key_of ''agency'' p \<notin> set object_prototype_keys) example_projects \<and>
   groupedProjects ascii_collation ''none'' example_projects =
     Inr [\<lparr> group_key = ''all'', group_title = [], group_projects = example_projects \<rparr>] \<and>
   groupedProjects ascii_collation ''agency'' example_projects =
     Inr [\<lparr> group_key = ''alpha'', group_title = ''alpha'',
             group_projects =
               [example_project ''p2'' ''A'' ''alpha'' ''bob'' ''2025-01-01'',
                example_project ''p3'' ''C'' ''alpha'' ''ann'' ''2025-01-01''] \<rparr>,
          \<lparr> group_key = ''Zeta'', group_title = ''Zeta'',
             group_projects = [example_project ''p1'' ''B'' ''Zeta'' ''ann'' ''2025-01-02''] \<rparr>]"
proof -
  have h: "list_all (\<lambda>p. group_key_of ''agency'' p \<notin> set object_prototype_keys) example_projects"
    by (simp add: group_key_of_def example_projects_def example_project_def
          object_prototype_keys_def)
  then have h': "\<forall>p\<in>set example_projects. group_key_of ''agency'' p \<notin> set object_prototype_keys"
    by (simp add: list_all_iff)
  have n: "groupedProjects ascii_collation ''none'' example_projects =
     Inr [\<lparr> group_key = ''all'', group_title = [], group_projects = example_projects \<rparr>]"
    using groupedProjects_partition [OF consistent_ascii_collation _ h'] by simp
  show ?thesis
    by (intro conjI) (rule consistent_ascii_collation h n grouped_example)+
qed

theorem groupedProjects_order_counterexample:
  "groupedProjects ascii_collation ''agency'' example_projects =
     Inr [\<lparr> group_key = ''alpha'', group_title = ''alpha'',
             group_projects =
               [example_project ''p2'' ''A'' ''alpha'' ''bob'' ''2025-01-01'',
                example_project ''p3'' ''C'' ''alpha'' ''ann'' ''2025-01-01''] \<rparr>,
          \<lparr> group_key = ''Zeta'', group_title = ''Zeta'',
             group_projects = [example_project ''p1'' ''B'' ''Zeta'' ''ann'' ''2025-01-02''] \<rparr>] \<and>
   ''Zeta'' < ''alpha'' \<and> \<not> sorted [''alpha'', ''Zeta'']"
  by (simp add: grouped_example)

text \<open>A project whose author is named \<open>constructor\<close>: the loop throws, for any
  collation.\<close>

lemma groupedProjects_inherited_key:
  "groupedProjects lc ''author''
     [example_project ''p9'' ''X'' ''Y'' ''constructor'' ''2025-01-01''] = Inl TypeError"
  by (simp add: groupedProjects_def group_step_def example_project_def
        object_prototype_keys_def Let_def)

subsection \<open>Grouping by anything but the author\<close>





subsection \<open>Failure of the request\<close>

lemma getProjects_rejected:
  assumes "replies net (requests net) env = Rejected e"
  shows "getProjects env net =
           (Resolved \<lparr> success = False, response_data = None,
                       response_error = Some (response_message e) \<rparr>,
            net\<lparr>requests := Suc (requests net)\<rparr>)"
  using assms
  by (cases e) (simp_all add: getProjects_def api_get_def response_interceptor_def
       response_message_def)

lemma getProjects_resolved:
  assumes "replies net (requests net) env = Resolved r"
  shows "getProjects env net = (Resolved r, net\<lparr>requests := Suc (requests net)\<rparr>)"
  using assms by (simp add: getProjects_def api_get_def response_interceptor_def)

lemma getProjects_never_rejects: "\<exists>r net'. getProjects env net = (Resolved r, net')"
  by (cases "replies net (requests net) env")
     (simp_all add: getProjects_rejected getProjects_resolved)

lemma response_message_empty: "response_message e = [] \<longleftrightarrow> e = ErrorObject []"
  by (cases e) (simp_all add: response_message_def type_error_message_def)

lemma fetchProjects_rejected:
  assumes "replies net (requests net) env = Rejected e"
  shows "fetchProjects env st net =
           (st\<lparr>loading := False,
               error := Some (or_default (Some (response_message e))
                                ''Failed to fetch projects'')\<rparr>,
            net\<lparr>requests := Suc (requests net)\<rparr>)"
  by (simp add: fetchProjects_def Let_def getProjects_rejected [OF assms])

text \<open>
  C8, as the code has it. When the transport rejects the request, for any environment,
  \<^verbatim>\<open>getProjects\<close> is resolved all the same, after that one request, with a response
  whose \<open>success\<close> is false, which has no data, and whose error is the message of the
  \<^verbatim>\<open>Error\<close> that reaches the \<^verbatim>\<open>catch\<close>, or the text \<open>Unknown error occurred\<close> for a
  value that is no \<^verbatim>\<open>Error\<close>. That error is empty exactly when the rejection is an
  \<^verbatim>\<open>Error\<close> with the empty message. \<^verbatim>\<open>fetchProjects\<close> ends, after that one request,
  with the loading flag off, the data as before and an error that is not empty and
  that the error panel shows.
\<close>

theorem getProjects_network_failure:
  assumes "replies net (requests net) env = Rejected e"
  shows "(\<exists>r. getProjects env net = (Resolved r, net\<lparr>requests := Suc (requests net)\<rparr>) \<and>
           success r = False \<and> response_data r = None \<and>
           response_error r = Some (response_message e)) \<and>
         (response_message e = [] \<longleftrightarrow> e = ErrorObject []) \<and>
         (\<exists>st' m. fetchProjects env st net = (st', net\<lparr>requests := Suc (requests net)\<rparr>) \<and>
           loading st' = False \<and> data st' = data st \<and> error st' = Some m \<and> m \<noteq> [] \<and>
           render st' = ErrorPanel m)"
proof (intro conjI)
  show "\<exists>r. getProjects env net = (Resolved r, net\<lparr>requests := Suc (requests net)\<rparr>) \<and>
           success r = False \<and> response_data r = None \<and>
           response_error r = Some (response_message e)"
    unfolding getProjects_rejected [OF assms] by simp
  show "response_message e = [] \<longleftrightarrow> e = ErrorObject []"
    by (rule response_message_empty)
  show "\<exists>st' m. fetchProjects env st net = (st', net\<lparr>requests := Suc (requests net)\<rparr>) \<and>
           loading st' = False \<and> data st' = data st \<and> error st' = Some m \<and> m \<noteq> [] \<and>
           render st' = ErrorPanel m"
    unfolding fetchProjects_rejected [OF assms]
    by (cases "response_message e = []") (simp_all add: render_def)
qed

text \<open>The first request of the failing backend: the panel shows the message, and the
  button, which fetches again, brings the grid.\<close>

theorem getProjects_network_failure_witness:
  "replies failing_network (requests failing_network) ''production'' =
     Rejected (ErrorObject ''Network Error'') \<and>
   fst (getProjects ''production'' failing_network) =
     Resolved \<lparr> success = False, response_data = None,
                response_error = Some ''Network Error'' \<rparr> \<and>
   requests (snd (getProjects ''production'' failing_network)) = 1 \<and>
   render (fst (fetchProjects ''production'' initial_state failing_network)) =
     ErrorPanel ''Network Error'' \<and>
   requests (snd (fetchProjects ''production'' initial_state failing_network)) = 1 \<and>
   render (fst (fetchProjects ''production''
                 (fst (fetchProjects ''production'' initial_state failing_network))
                 (snd (fetchProjects ''production'' initial_state failing_network)))) = Grid"
proof -
  have h: "replies failing_network (requests failing_network) ''production'' =
             Rejected (ErrorObject ''Network Error'')"
    by (simp add: failing_network_def)
  have a: "fst (getProjects ''production'' failing_network) =
     Resolved \<lparr> success = False, response_data = None,
                response_error = Some ''Network Error'' \<rparr>"
    and b: "requests (snd (getProjects ''production'' failing_network)) = 1"
    by (simp_all add: getProjects_rejected [OF h] response_message_def)
       (simp add: failing_network_def)
  have c: "render (fst (fetchProjects ''production'' initial_state failing_network)) =
     ErrorPanel ''Network Error''"
    and d: "requests (snd (fetchProjects ''production'' initial_state failing_network)) = 1"
    by (simp_all add: fetchProjects_rejected [OF h] render_def response_message_def)
       (simp add: failing_network_def)
  have g: "render (fst (fetchProjects ''production''
                 (fst (fetchProjects ''production'' initial_state failing_network))
                 (snd (fetchProjects ''production'' initial_state failing_network)))) = Grid"
    by (simp add: fetchProjects_rejected [OF h])
       (simp add: fetchProjects_def getProjects_def api_get_def failing_network_def Let_def
          render_def initial_state_def example_data_def example_projects_def
          response_interceptor_def)
  show ?thesis
    apply (insert getProjects_network_failure [OF h, of initial_state])
    apply (intro conjI)
         apply (rule h a b c d g)+
    done
qed

text \<open>A rejection with an \<^verbatim>\<open>Error\<close> whose message is empty: \<^verbatim>\<open>getProjects\<close> resolves
  with the empty error message.\<close>

theorem getProjects_empty_message_counterexample:
  "replies silent_network (requests silent_network) ''local'' = Rejected (ErrorObject []) \<and>
   fst (getProjects ''local'' silent_network) =
     Resolved \<lparr> success = False, response_data = None, response_error = Some [] \<rparr>"
  by (simp add: silent_network_def getProjects_def api_get_def response_interceptor_def)

text \<open>A rejection with \<^verbatim>\<open>undefined\<close>: the response interceptor throws, and the response
  carries the message of its \<^verbatim>\<open>TypeError\<close>.\<close>

lemma getProjects_undefined_rejection:
  assumes "replies net (requests net) env = Rejected UndefinedValue"
  shows "fst (getProjects env net) =
           Resolved \<lparr> success = False, response_data = None,
                      response_error = Some (type_error_message ''undefined'') \<rparr>"
  by (simp add: getProjects_rejected [OF assms] response_message_def)

end
